theory Spec2Isabelle
  imports Complex_Main "HOL-Library.Multiset" "HOL-Library.AList"
begin

section \<open>JavaScript values carried by socket payloads\<close>

text \<open>
  Payloads arrive as JSON. Numbers are IEEE doubles in the source; the finite ones are
  modelled by exact rationals, next to the three special values. Integer counters of the
  documents (version, counts, pool sizes) are modelled by unbounded integers.
\<close>

datatype jsnum = NaN | PosInf | NegInf | Fin rat

datatype jv =
    JUndefined
  | JNull
  | JBool bool
  | JNum jsnum
  | JStr string
  | JArr "jv list"
  | JObj "(string \<times> jv) list"

datatype error = TypeError

text \<open>Decimal rendering of a natural number, as template literals do for array indices.\<close>

definition digit_char :: "nat \<Rightarrow> char" where
  "digit_char d = char_of (48 + d)"

fun show_nat :: "nat \<Rightarrow> string" where
  "show_nat n = (if n < 10 then [digit_char n] else show_nat (n div 10) @ [digit_char (n mod 10)])"

declare show_nat.simps [simp del]

text \<open>
  Property read \<open>v[k]\<close> on a payload value, own properties only: reading from
  \<open>undefined\<close> or \<open>null\<close> throws, an object yields the stored field, an array yields an
  element for an index key, everything else yields \<open>undefined\<close>. An object is the list
  of its own properties; the first entry of a key is its value. The handlers read the
  keys type, player, target, value, path and cards only, and no built-in prototype has a
  member of one of these names.
\<close>

fun index_of_key :: "nat \<Rightarrow> nat \<Rightarrow> string \<Rightarrow> nat option" where
  "index_of_key 0 i k = None"
| "index_of_key (Suc n) i k = (if show_nat i = k then Some i else index_of_key n (Suc i) k)"

definition getf :: "jv \<Rightarrow> string \<Rightarrow> error + jv" where
  "getf v k =
     (case v of
        JUndefined \<Rightarrow> Inl TypeError
      | JNull \<Rightarrow> Inl TypeError
      | JObj fs \<Rightarrow> (case map_of fs k of None \<Rightarrow> Inr JUndefined | Some x \<Rightarrow> Inr x)
      | JArr xs \<Rightarrow>
          (if k = ''length'' then Inr (JNum (Fin (of_nat (length xs))))
           else case index_of_key (length xs) 0 k of None \<Rightarrow> Inr JUndefined | Some i \<Rightarrow> Inr (xs ! i))
      | JStr s \<Rightarrow>
          (if k = ''length'' then Inr (JNum (Fin (of_nat (length s))))
           else case index_of_key (length s) 0 k of None \<Rightarrow> Inr JUndefined | Some i \<Rightarrow> Inr (JStr [s ! i]))
      | _ \<Rightarrow> Inr JUndefined)"

text \<open>Truthiness, as tested by \<open>if (x)\<close>.\<close>

fun truthy :: "jv \<Rightarrow> bool" where
  "truthy JUndefined = False"
| "truthy JNull = False"
| "truthy (JBool b) = b"
| "truthy (JNum NaN) = False"
| "truthy (JNum (Fin r)) = (r \<noteq> 0)"
| "truthy (JNum _) = True"
| "truthy (JStr s) = (s \<noteq> [])"
| "truthy (JArr _) = True"
| "truthy (JObj _) = True"

text \<open>
  Converting an array or an object to a primitive, as \<open>x|0\<close> and \<open>table[x]\<close> do, calls
  its \<open>toString\<close>. A parsed object that has an own property of that name holds a value
  there that is no function, and the conversion throws; an array converts its elements
  in turn, null and undefined apart.
\<close>

fun convertible :: "jv \<Rightarrow> bool" where
  "convertible (JObj fs) = (map_of fs ''toString'' = None)"
| "convertible (JArr xs) = (\<forall>x \<in> set xs. convertible x)"
| "convertible v = True"

text \<open>
  \<open>x|0\<close> is ToInt32 of ToNumber of \<open>x\<close>. ToNumber is fixed here for undefined, null,
  booleans and numbers; for strings, and for arrays and objects that convert, it parses
  text, which is the runtime's business: that part is the parameter \<open>parse\<close>.
\<close>

definition toNumber :: "(jv \<Rightarrow> jsnum) \<Rightarrow> jv \<Rightarrow> error + jsnum" where
  "toNumber parse v =
     (case v of
        JUndefined \<Rightarrow> Inr NaN
      | JNull \<Rightarrow> Inr (Fin 0)
      | JBool b \<Rightarrow> Inr (Fin (if b then 1 else 0))
      | JNum n \<Rightarrow> Inr n
      | _ \<Rightarrow> if convertible v then Inr (parse v) else Inl TypeError)"

definition trunc :: "rat \<Rightarrow> int" where
  "trunc r = (if 0 \<le> r then \<lfloor>r\<rfloor> else - \<lfloor>- r\<rfloor>)"

definition wrap32 :: "int \<Rightarrow> int" where
  "wrap32 n = (let m = n mod 4294967296 in if 2147483648 \<le> m then m - 4294967296 else m)"

definition toInt32 :: "jsnum \<Rightarrow> int" where
  "toInt32 n = (case n of Fin r \<Rightarrow> wrap32 (trunc r) | _ \<Rightarrow> 0)"

text \<open>
  \<open>const clamp = (x,min,max)=>Math.min(max,Math.max(min,x|0))\<close>, first for an argument
  that is a number, then for any payload value.
\<close>

definition clamp_num :: "jsnum \<Rightarrow> int \<Rightarrow> int \<Rightarrow> int" where
  "clamp_num n lo hi = min hi (max lo (toInt32 n))"

definition clamp :: "(jv \<Rightarrow> jsnum) \<Rightarrow> jv \<Rightarrow> int \<Rightarrow> int \<Rightarrow> error + int" where
  "clamp parse x lo hi =
     (case toNumber parse x of Inl e \<Rightarrow> Inl e | Inr n \<Rightarrow> Inr (clamp_num n lo hi))"

text \<open>
  A payload value used as a property key is converted to a string. Strings are their own
  key; undefined, null and booleans have fixed names; for numbers, and for arrays and
  objects that convert, the text is the runtime's, the parameter \<open>render\<close>.
\<close>

definition toKey :: "(jv \<Rightarrow> string) \<Rightarrow> jv \<Rightarrow> error + string" where
  "toKey render v =
     (case v of
        JStr s \<Rightarrow> Inr s
      | JUndefined \<Rightarrow> Inr ''undefined''
      | JNull \<Rightarrow> Inr ''null''
      | JBool b \<Rightarrow> Inr (if b then ''true'' else ''false'')
      | _ \<Rightarrow> if convertible v then Inr (render v) else Inl TypeError)"


text \<open>
  The kind of value a property is read from when the key is no own property of it: the
  read then goes through the built-in prototypes of that kind.
\<close>

datatype holder = HObject | HArray | HString | HNumber | HSet

text \<open>
  What the program takes from the runtime. \<open>rt_pick rt k n\<close> is the value of
  \<open>(Math.random()*n)|0\<close> at the \<open>k\<close>-th call of \<open>Math.random()\<close> during the handling of
  one event: a product of doubles, with its rounding; its contract is \<open>0 \<le> j < n\<close>.
  \<open>rt_inherited rt h ks\<close> says whether reading the keys \<open>ks\<close> one after the other with
  \<open>o?.[k]\<close>, starting from a value of kind \<open>h\<close> that has no own property of the first key,
  throws: the built-in library has accessors that do (\<open>caller\<close> and \<open>arguments\<close> of
  a function, \<open>size\<close> of the prototype of sets), and which members it has depends on
  its version. Such a walk never comes back to a value of the document.
\<close>

record runtime =
  rt_number :: "jv \<Rightarrow> jsnum"
  rt_string :: "jv \<Rightarrow> string"
  rt_pick :: "nat \<Rightarrow> nat \<Rightarrow> int"
  rt_inherited :: "holder \<Rightarrow> string list \<Rightarrow> bool"

definition bindE :: "error + 'a \<Rightarrow> ('a \<Rightarrow> error + 'b) \<Rightarrow> error + 'b" where
  "bindE m f = (case m of Inl e \<Rightarrow> Inl e | Inr x \<Rightarrow> f x)"

section \<open>onpc-proto: the authoritative document\<close>

datatype side = A | B

definition sideOf :: "string \<Rightarrow> side option" where
  "sideOf k = (if k = ''A'' then Some A else if k = ''B'' then Some B else None)"

text \<open>
  What a plain object such as \<open>{ A:[], B:[] }\<close> yields for a key that is no own
  property: the member of \<open>Object.prototype\<close> of that name, which is a function with its
  number of parameters as \<open>length\<close>, or for \<open>__proto__\<close> the prototype object itself,
  which has no \<open>length\<close>; for any other key, undefined. None of these values has a
  \<open>shift\<close>, \<open>push\<close> or \<open>add\<close> method.
\<close>

datatype inherited = Missing | Method nat | Prototype

definition object_prototype :: "string \<Rightarrow> inherited" where
  "object_prototype k =
     (if k = ''toString'' \<or> k = ''valueOf'' \<or> k = ''toLocaleString'' then Method 0
      else if k = ''constructor'' \<or> k = ''hasOwnProperty'' \<or> k = ''isPrototypeOf'' \<or>
              k = ''propertyIsEnumerable'' \<or> k = ''__lookupGetter__'' \<or> k = ''__lookupSetter__''
           then Method 1
      else if k = ''__defineGetter__'' \<or> k = ''__defineSetter__'' then Method 2
      else if k = ''__proto__'' then Prototype
      else Missing)"

text \<open>
  A resource table \<open>{ A:n, B:n }\<close>. The keys A and B are never deleted and hold
  integers. An assignment \<open>table[p] = v\<close> with another key adds that key as an own
  property, except for \<open>__proto__\<close>, where the assignment of a number does nothing; such
  an entry holds an integer or NaN. A key that is no own property reads as an inherited
  function or object or as undefined, none of which is a number in arithmetic.
\<close>

datatype cell = Num int | NotNum

record pool =
  onSide :: "side \<Rightarrow> int"
  others :: "string \<rightharpoonup> cell"

definition other_set :: "pool \<Rightarrow> string \<Rightarrow> cell \<Rightarrow> pool" where
  "other_set t k c = (if k = ''__proto__'' then t else t\<lparr>others := (others t)(k \<mapsto> c)\<rparr>)"

definition other_get :: "pool \<Rightarrow> string \<Rightarrow> cell" where
  "other_get t k =
     (if k = ''__proto__'' then NotNum else case others t k of Some c \<Rightarrow> c | None \<Rightarrow> NotNum)"

definition pool_set :: "pool \<Rightarrow> string \<Rightarrow> int \<Rightarrow> pool" where
  "pool_set t k v =
     (case sideOf k of
        Some q \<Rightarrow> t\<lparr>onSide := (onSide t)(q := v)\<rparr>
      | None \<Rightarrow> other_set t k (Num v))"

text \<open>\<open>Math.min(2, x)\<close>, \<open>x - y\<close> and \<open>x + y\<close> on such entries, and the entry as a number.\<close>

definition min2 :: "cell \<Rightarrow> cell" where
  "min2 c = (case c of Num n \<Rightarrow> Num (min 2 n) | NotNum \<Rightarrow> NotNum)"

definition cell_sub :: "cell \<Rightarrow> cell \<Rightarrow> cell" where
  "cell_sub x y = (case x of Num a \<Rightarrow> (case y of Num b \<Rightarrow> Num (a - b) | NotNum \<Rightarrow> NotNum) | NotNum \<Rightarrow> NotNum)"

definition cell_add :: "cell \<Rightarrow> cell \<Rightarrow> cell" where
  "cell_add x y = (case x of Num a \<Rightarrow> (case y of Num b \<Rightarrow> Num (a + b) | NotNum \<Rightarrow> NotNum) | NotNum \<Rightarrow> NotNum)"

definition cell_number :: "cell \<Rightarrow> jsnum" where
  "cell_number c = (case c of Num n \<Rightarrow> Fin (of_int n) | NotNum \<Rightarrow> NaN)"

text \<open>A board slot: the only value the program ever stores in one is \<open>null\<close>.\<close>

datatype slot = Vacant

record state =
  version :: int
  players :: "string list"
  deckImages :: "side \<Rightarrow> string list"
  handImages :: "side \<Rightarrow> string list"
  lifeImages :: "side \<Rightarrow> string list"
  trashImages :: "side \<Rightarrow> string list"
  deckCounts :: "side \<Rightarrow> int"
  handCounts :: "side \<Rightarrow> int"
  lifeCounts :: "side \<Rightarrow> int"
  trashCounts :: "side \<Rightarrow> int"
  donDeck :: pool
  donAct :: pool
  donRest :: pool
  chara :: "side \<Rightarrow> slot list"
  stage :: "side \<Rightarrow> slot"
  revealedLife :: "side \<Rightarrow> jv list"
  revealedDeck :: "side \<Rightarrow> jv list"

definition deckImage :: "string \<Rightarrow> nat \<Rightarrow> string" where
  "deckImage who i = ''deck/player_'' @ who @ ''/images/image ('' @ show_nat (i + 1) @ '').png''"

definition makeInitialState :: state where
  "makeInitialState =
     \<lparr> version = 0,
       players = [''A'', ''B''],
       deckImages = (\<lambda>p. case p of A \<Rightarrow> map (deckImage ''A'') [0..<50]
                               | B \<Rightarrow> map (deckImage ''B'') [0..<50]),
       handImages = (\<lambda>p. []),
       lifeImages = (\<lambda>p. []),
       trashImages = (\<lambda>p. []),
       deckCounts = (\<lambda>p. 50),
       handCounts = (\<lambda>p. 0),
       lifeCounts = (\<lambda>p. 0),
       trashCounts = (\<lambda>p. 0),
       donDeck = \<lparr> onSide = (\<lambda>p. 10), others = Map.empty \<rparr>,
       donAct = \<lparr> onSide = (\<lambda>p. 0), others = Map.empty \<rparr>,
       donRest = \<lparr> onSide = (\<lambda>p. 0), others = Map.empty \<rparr>,
       chara = (\<lambda>p. [Vacant, Vacant, Vacant, Vacant, Vacant]),
       stage = (\<lambda>p. Vacant),
       revealedLife = (\<lambda>p. []),
       revealedDeck = (\<lambda>p. []) \<rparr>"

subsection \<open>Reveal-sets\<close>

text \<open>
  A \<open>Set\<close> keeps insertion order and holds a primitive value at most once; arrays and
  objects parsed from a payload are fresh references, so each is a new member.
\<close>

fun primitive :: "jv \<Rightarrow> bool" where
  "primitive (JArr _) = False"
| "primitive (JObj _) = False"
| "primitive _ = True"

definition set_add :: "jv list \<Rightarrow> jv \<Rightarrow> jv list" where
  "set_add xs x = (if primitive x \<and> x \<in> set xs then xs else xs @ [x])"

definition set_delete :: "jv list \<Rightarrow> jv \<Rightarrow> jv list" where
  "set_delete xs x = filter (\<lambda>y. y \<noteq> x) xs"

subsection \<open>Fisher-Yates\<close>

text \<open>
  \<open>for(let i=arr.length-1;i>0;i--){ const j=(Math.random()*(i+1))|0; swap arr[i], arr[j] }\<close>.
  Within the contract of the draws the index \<open>j\<close> is at most \<open>i\<close>; the model leaves the
  array alone for a draw outside that contract.
\<close>

definition swap :: "'a list \<Rightarrow> nat \<Rightarrow> int \<Rightarrow> 'a list" where
  "swap xs i j =
     (if 0 \<le> j \<and> nat j < length xs \<and> i < length xs
      then xs[i := xs ! nat j, nat j := xs ! i] else xs)"

primrec fisher_yates :: "(nat \<Rightarrow> nat \<Rightarrow> int) \<Rightarrow> nat \<Rightarrow> nat \<Rightarrow> 'a list \<Rightarrow> 'a list" where
  "fisher_yates pk k 0 xs = xs"
| "fisher_yates pk k (Suc n) xs =
     fisher_yates pk (Suc k) n (swap xs (Suc n) (pk k (Suc n + 1)))"

definition shuffle :: "(nat \<Rightarrow> nat \<Rightarrow> int) \<Rightarrow> 'a list \<Rightarrow> 'a list" where
  "shuffle pk xs = fisher_yates pk 0 (length xs - 1) xs"

subsection \<open>Resolving a shuffle path\<close>

text \<open>
  \<open>a.path.split('.').reduce((o,k)=>o?.[k], state)\<close> reads one key after the other,
  starting at the document. A node records what the walk has reached inside the
  document: the document itself, one of its tables, one of its arrays, a string, a
  number, a reveal-set, or null or undefined.
\<close>

datatype zone = ZDeck | ZHand | ZLife | ZTrash

datatype arrloc = LPlayers | LZone zone side | LChara side

datatype poolname = PDeck | PAct | PRest

datatype node =
    NState
  | NImages zone
  | NChara
  | NCounts
  | NPool poolname
  | NStage
  | NRevealed
  | NRevealedZone
  | NArray arrloc
  | NString string
  | NNumber
  | NSetObj
  | NNothing

primrec split_dot :: "string \<Rightarrow> string list" where
  "split_dot [] = [[]]"
| "split_dot (c # cs) =
     (if c = CHR ''.'' then [] # split_dot cs
      else case split_dot cs of [] \<Rightarrow> [[c]] | w # ws \<Rightarrow> (c # w) # ws)"

definition images :: "zone \<Rightarrow> state \<Rightarrow> side \<Rightarrow> string list" where
  "images z s = (case z of ZDeck \<Rightarrow> deckImages s | ZHand \<Rightarrow> handImages s
                         | ZLife \<Rightarrow> lifeImages s | ZTrash \<Rightarrow> trashImages s)"

definition pool_of :: "state \<Rightarrow> poolname \<Rightarrow> pool" where
  "pool_of s w = (case w of PDeck \<Rightarrow> donDeck s | PAct \<Rightarrow> donAct s | PRest \<Rightarrow> donRest s)"

text \<open>The elements of an array of the document, as nodes.\<close>

definition elements :: "state \<Rightarrow> arrloc \<Rightarrow> node list" where
  "elements s l =
     (case l of
        LPlayers \<Rightarrow> map NString (players s)
      | LZone z q \<Rightarrow> map NString (images z s q)
      | LChara q \<Rightarrow> map (\<lambda>x. NNothing) (chara s q))"

text \<open>
  The own property \<open>k\<close> of a node, if it has one. Reading any key from null or undefined
  with \<open>?.\<close> gives undefined. Numbers and sets have no own properties with string keys.
\<close>

fun own :: "state \<Rightarrow> node \<Rightarrow> string \<Rightarrow> node option" where
  "own s NState k =
     (if k = ''version'' then Some NNumber
      else if k = ''players'' then Some (NArray LPlayers)
      else if k = ''deckImages'' then Some (NImages ZDeck)
      else if k = ''handImages'' then Some (NImages ZHand)
      else if k = ''lifeImages'' then Some (NImages ZLife)
      else if k = ''trashImages'' then Some (NImages ZTrash)
      else if k = ''deckCounts'' \<or> k = ''handCounts'' \<or> k = ''lifeCounts'' \<or> k = ''trashCounts''
           then Some NCounts
      else if k = ''donDeck'' then Some (NPool PDeck)
      else if k = ''donAct'' then Some (NPool PAct)
      else if k = ''donRest'' then Some (NPool PRest)
      else if k = ''chara'' then Some NChara
      else if k = ''stage'' then Some NStage
      else if k = ''revealed'' then Some NRevealed
      else None)"
| "own s (NImages z) k = (case sideOf k of Some q \<Rightarrow> Some (NArray (LZone z q)) | None \<Rightarrow> None)"
| "own s NChara k = (case sideOf k of Some q \<Rightarrow> Some (NArray (LChara q)) | None \<Rightarrow> None)"
| "own s NCounts k = (case sideOf k of Some q \<Rightarrow> Some NNumber | None \<Rightarrow> None)"
| "own s (NPool w) k =
     (case sideOf k of
        Some q \<Rightarrow> Some NNumber
      | None \<Rightarrow> if k \<noteq> ''__proto__'' \<and> others (pool_of s w) k \<noteq> None then Some NNumber else None)"
| "own s NStage k = (case sideOf k of Some q \<Rightarrow> Some NNothing | None \<Rightarrow> None)"
| "own s NRevealed k = (if k = ''life'' \<or> k = ''deck'' then Some NRevealedZone else None)"
| "own s NRevealedZone k = (case sideOf k of Some q \<Rightarrow> Some NSetObj | None \<Rightarrow> None)"
| "own s (NArray l) k =
     (if k = ''length'' then Some NNumber
      else case index_of_key (length (elements s l)) 0 k of
             Some i \<Rightarrow> Some (elements s l ! i)
           | None \<Rightarrow> None)"
| "own s (NString str) k =
     (if k = ''length'' then Some NNumber
      else case index_of_key (length str) 0 k of
             Some i \<Rightarrow> Some (NString [str ! i])
           | None \<Rightarrow> None)"
| "own s NNumber k = None"
| "own s NSetObj k = None"
| "own s NNothing k = Some NNothing"

fun holder_of :: "node \<Rightarrow> holder" where
  "holder_of (NArray l) = HArray"
| "holder_of (NString str) = HString"
| "holder_of NNumber = HNumber"
| "holder_of NSetObj = HSet"
| "holder_of n = HObject"

text \<open>
  Where the walk ends: at a node of the document, at some value of the built-in library
  (or undefined) reached through an inherited property, or with a throw.
\<close>

datatype found = Reached node | Builtin | Throws

fun walk :: "(holder \<Rightarrow> string list \<Rightarrow> bool) \<Rightarrow> state \<Rightarrow> node \<Rightarrow> string list \<Rightarrow> found" where
  "walk inh s n [] = Reached n"
| "walk inh s n (k # ks) =
     (case own s n k of
        Some n' \<Rightarrow> walk inh s n' ks
      | None \<Rightarrow> if inh (holder_of n) (k # ks) then Throws else Builtin)"

definition resolve :: "runtime \<Rightarrow> state \<Rightarrow> string \<Rightarrow> found" where
  "resolve rt s path = walk (rt_inherited rt) s NState (split_dot path)"

definition shuffle_at :: "(nat \<Rightarrow> nat \<Rightarrow> int) \<Rightarrow> state \<Rightarrow> arrloc \<Rightarrow> state" where
  "shuffle_at pk s l =
     (case l of
        LPlayers \<Rightarrow> s\<lparr>players := shuffle pk (players s)\<rparr>
      | LZone ZDeck q \<Rightarrow> s\<lparr>deckImages := (deckImages s)(q := shuffle pk (deckImages s q))\<rparr>
      | LZone ZHand q \<Rightarrow> s\<lparr>handImages := (handImages s)(q := shuffle pk (handImages s q))\<rparr>
      | LZone ZLife q \<Rightarrow> s\<lparr>lifeImages := (lifeImages s)(q := shuffle pk (lifeImages s q))\<rparr>
      | LZone ZTrash q \<Rightarrow> s\<lparr>trashImages := (trashImages s)(q := shuffle pk (trashImages s q))\<rparr>
      | LChara q \<Rightarrow> s\<lparr>chara := (chara s)(q := shuffle pk (chara s q))\<rparr>)"

subsection \<open>The reducer\<close>

text \<open>One \<open>deck.shift(); hand.unshift(top); deckCounts--; handCounts++\<close> on a non-empty deck.\<close>

definition draw :: "state \<Rightarrow> side \<Rightarrow> state" where
  "draw s q =
     (case deckImages s q of
        [] \<Rightarrow> s
      | c # rest \<Rightarrow>
          s\<lparr>deckImages := (deckImages s)(q := rest),
            handImages := (handImages s)(q := c # handImages s q),
            deckCounts := (deckCounts s)(q := deckCounts s q - 1),
            handCounts := (handCounts s)(q := handCounts s q + 1)\<rparr>)"

text \<open>The mulligan's \<open>while(hand.length)\<close> loop: hand cards go to the bottom of the deck.\<close>

function give_back :: "state \<Rightarrow> side \<Rightarrow> state" where
  "give_back s q =
     (case handImages s q of
        [] \<Rightarrow> s
      | c # cs \<Rightarrow>
          give_back
            (s\<lparr>deckImages := (deckImages s)(q := deckImages s q @ [c]),
               handImages := (handImages s)(q := cs),
               handCounts := (handCounts s)(q := handCounts s q - 1),
               deckCounts := (deckCounts s)(q := deckCounts s q + 1)\<rparr>) q)"
  by pat_completeness auto
termination
  by (relation "measure (\<lambda>(s, q). length (handImages s q))") auto

declare give_back.simps [simp del]

text \<open>\<open>for(let i=0;i<Math.min(5, deck.length); i++)\<close>: the bound is read again each round.\<close>

function draw_five :: "nat \<Rightarrow> state \<Rightarrow> side \<Rightarrow> state" where
  "draw_five i s q =
     (if i < min 5 (length (deckImages s q)) then draw_five (i + 1) (draw s q) q else s)"
  by pat_completeness auto
termination
  by (relation "measure (\<lambda>(i, s, q). 5 - i)") auto

declare draw_five.simps [simp del]


text \<open>
  The cases of \<open>switch(a.type)\<close>. \<open>p\<close> is the key \<open>a.player\<close>. A table of arrays has the
  own keys A and B only. For another key \<open>state.deckImages[p]\<close> is what the table
  inherits: for a function without parameters \<open>deck.length===0\<close> holds and the case
  breaks; for a function with parameters and for the prototype object the test fails and
  \<open>deck.shift()\<close> throws; for undefined, reading \<open>length\<close> throws.
\<close>

definition inherited_move :: "state \<Rightarrow> string \<Rightarrow> error + state" where
  "inherited_move s p =
     (case object_prototype p of
        Method n \<Rightarrow> if n = 0 then Inr s else Inl TypeError
      | _ \<Rightarrow> Inl TypeError)"

definition DRAW_TO_HAND :: "state \<Rightarrow> string \<Rightarrow> error + state" where
  "DRAW_TO_HAND s p = (case sideOf p of None \<Rightarrow> inherited_move s p | Some q \<Rightarrow> Inr (draw s q))"

definition DECK_TO_LIFE_TOP :: "state \<Rightarrow> string \<Rightarrow> error + state" where
  "DECK_TO_LIFE_TOP s p =
     (case sideOf p of
        None \<Rightarrow> inherited_move s p
      | Some q \<Rightarrow>
          (case deckImages s q of
             [] \<Rightarrow> Inr s
           | c # rest \<Rightarrow>
               Inr (s\<lparr>deckImages := (deckImages s)(q := rest),
                      lifeImages := (lifeImages s)(q := c # lifeImages s q),
                      deckCounts := (deckCounts s)(q := deckCounts s q - 1),
                      lifeCounts := (lifeCounts s)(q := lifeCounts s q + 1)\<rparr>)))"

definition DECK_TO_TRASH :: "state \<Rightarrow> string \<Rightarrow> error + state" where
  "DECK_TO_TRASH s p =
     (case sideOf p of
        None \<Rightarrow> inherited_move s p
      | Some q \<Rightarrow>
          (case deckImages s q of
             [] \<Rightarrow> Inr s
           | c # rest \<Rightarrow>
               Inr (s\<lparr>deckImages := (deckImages s)(q := rest),
                      trashImages := (trashImages s)(q := c # trashImages s q),
                      deckCounts := (deckCounts s)(q := deckCounts s q - 1),
                      trashCounts := (trashCounts s)(q := trashCounts s q + 1)\<rparr>)))"

definition LIFE_TO_HAND :: "state \<Rightarrow> string \<Rightarrow> error + state" where
  "LIFE_TO_HAND s p =
     (case sideOf p of
        None \<Rightarrow> inherited_move s p
      | Some q \<Rightarrow>
          (case lifeImages s q of
             [] \<Rightarrow> Inr s
           | c # rest \<Rightarrow>
               Inr (s\<lparr>lifeImages := (lifeImages s)(q := rest),
                      handImages := (handImages s)(q := c # handImages s q),
                      lifeCounts := (lifeCounts s)(q := lifeCounts s q - 1),
                      handCounts := (handCounts s)(q := handCounts s q + 1),
                      revealedLife := (revealedLife s)(q := set_delete (revealedLife s q) (JStr c))\<rparr>)))"

definition LIFE_TO_TRASH :: "state \<Rightarrow> string \<Rightarrow> error + state" where
  "LIFE_TO_TRASH s p =
     (case sideOf p of
        None \<Rightarrow> inherited_move s p
      | Some q \<Rightarrow>
          (case lifeImages s q of
             [] \<Rightarrow> Inr s
           | c # rest \<Rightarrow>
               Inr (s\<lparr>lifeImages := (lifeImages s)(q := rest),
                      trashImages := (trashImages s)(q := c # trashImages s q),
                      lifeCounts := (lifeCounts s)(q := lifeCounts s q - 1),
                      trashCounts := (trashCounts s)(q := trashCounts s q + 1),
                      revealedLife := (revealedLife s)(q := set_delete (revealedLife s q) (JStr c))\<rparr>)))"

definition DON_SET :: "runtime \<Rightarrow> state \<Rightarrow> jv \<Rightarrow> jv \<Rightarrow> jv \<Rightarrow> error + state" where
  "DON_SET rt s player target val =
     bindE (toKey (rt_string rt) player) (\<lambda>p.
     bindE (clamp (rt_number rt) val 0 10) (\<lambda>v.
       Inr (if target = JStr ''deck'' then s\<lparr>donDeck := pool_set (donDeck s) p v\<rparr>
            else if target = JStr ''act'' then s\<lparr>donAct := pool_set (donAct s) p v\<rparr>
            else s\<lparr>donRest := pool_set (donRest s) p v\<rparr>)))"

text \<open>Only a string has a \<open>split\<close> method: any other \<open>a.path\<close> throws.\<close>

text \<open>
  \<open>Array.isArray\<close> holds of the arrays of the document; the one array of the built-in
  library, the prototype of arrays, is empty, so that shuffling it does nothing.
\<close>

definition SHUFFLE :: "runtime \<Rightarrow> state \<Rightarrow> jv \<Rightarrow> error + state" where
  "SHUFFLE rt s path =
     (case path of
        JStr str \<Rightarrow>
          (case resolve rt s str of
             Reached n \<Rightarrow> (case n of NArray l \<Rightarrow> Inr (shuffle_at (rt_pick rt) s l) | _ \<Rightarrow> Inr s)
           | Builtin \<Rightarrow> Inr s
           | Throws \<Rightarrow> Inl TypeError)
      | _ \<Rightarrow> Inl TypeError)"

text \<open>
  For a key that is no side, \<open>while(state.handImages[p].length)\<close> reads the length of
  what the table inherits: undefined throws; a function with parameters enters the loop,
  where \<open>push\<close> is no function; a function without parameters and the prototype object
  have a length that is 0 or undefined, so that all three loops are skipped.
\<close>

definition MULLIGAN :: "runtime \<Rightarrow> state \<Rightarrow> string \<Rightarrow> error + state" where
  "MULLIGAN rt s p =
     (case sideOf p of
        None \<Rightarrow>
          (case object_prototype p of
             Missing \<Rightarrow> Inl TypeError
           | Method n \<Rightarrow> if n = 0 then Inr s else Inl TypeError
           | Prototype \<Rightarrow> Inr s)
      | Some q \<Rightarrow>
          (let s1 = give_back s q;
               s2 = s1\<lparr>deckImages := (deckImages s1)(q := shuffle (rt_pick rt) (deckImages s1 q))\<rparr>
           in Inr (draw_five 0 s2 q)))"

text \<open>
  For a side, the three pools hold integers. For a key that is no side the three
  assignments add own properties to the pools: the reserve entry is NaN unless it was an
  own number before, and the active entry is the clamp of a sum that is NaN unless both
  entries were own numbers (a function or an object makes the sum a string, which is no
  number either). Then \<open>if(deck.length)\<close> reads what the table of decks inherits: undefined
  throws; a function with parameters has a length that is true, and \<open>deck.shift()\<close>
  throws; a function without parameters and the prototype object are passed over. A throw
  comes after the pools were written; the process does not survive it.
\<close>

definition REFRESH :: "runtime \<Rightarrow> state \<Rightarrow> string \<Rightarrow> error + state" where
  "REFRESH rt s p =
     (case sideOf p of
        None \<Rightarrow>
          (let s1 = s\<lparr>donRest := other_set (donRest s) p (Num 0)\<rparr>;
               move = min2 (other_get (donDeck s1) p);
               s2 = s1\<lparr>donDeck := other_set (donDeck s1) p (cell_sub (other_get (donDeck s1) p) move)\<rparr>;
               s3 = s2\<lparr>donAct := other_set (donAct s2) p
                       (Num (clamp_num (cell_number (cell_add (other_get (donAct s2) p) move)) 0 10))\<rparr>
           in case object_prototype p of
                Missing \<Rightarrow> Inl TypeError
              | Method n \<Rightarrow> if n = 0 then Inr s3 else Inl TypeError
              | Prototype \<Rightarrow> Inr s3)
      | Some q \<Rightarrow>
          (let s1 = s\<lparr>donRest := pool_set (donRest s) p 0\<rparr>;
               move = min 2 (onSide (donDeck s1) q);
               s2 = s1\<lparr>donDeck := pool_set (donDeck s1) p (onSide (donDeck s1) q - move)\<rparr>;
               s3 = s2\<lparr>donAct := pool_set (donAct s2) p
                       (clamp_num (Fin (of_int (onSide (donAct s2) q + move))) 0 10)\<rparr>
           in Inr (draw s3 q)))"

text \<open>
  Only an array has \<open>forEach\<close> among payload values. For a key that is no side
  \<open>state.revealed.life[p]\<close> is undefined or inherited and has no \<open>add\<close> method:
  \<open>set.add\<close> then throws at the first card.
\<close>

definition REVEAL_LIFE :: "state \<Rightarrow> string \<Rightarrow> jv \<Rightarrow> error + state" where
  "REVEAL_LIFE s p cards =
     (case cards of
        JArr cs \<Rightarrow>
          (if cs = [] then Inr s
           else case sideOf p of
                  None \<Rightarrow> Inl TypeError
                | Some q \<Rightarrow> Inr (s\<lparr>revealedLife := (revealedLife s)(q := foldl set_add (revealedLife s q) cs)\<rparr>))
      | _ \<Rightarrow> Inl TypeError)"

text \<open>
  \<open>a.type\<close> throws when \<open>a\<close> is undefined or null; once it has been read, no other read
  of \<open>a\<close> throws. The player is converted to a key where a case first uses it.
\<close>

definition applyAction :: "runtime \<Rightarrow> state \<Rightarrow> jv \<Rightarrow> error + state" where
  "applyAction rt s a =
     bindE (getf a ''type'') (\<lambda>ty.
     bindE (getf a ''player'') (\<lambda>player.
     bindE (getf a ''target'') (\<lambda>target.
     bindE (getf a ''value'') (\<lambda>val.
     bindE (getf a ''path'') (\<lambda>path.
     bindE (getf a ''cards'') (\<lambda>cards.
       if ty = JStr ''DRAW_TO_HAND'' then bindE (toKey (rt_string rt) player) (DRAW_TO_HAND s)
       else if ty = JStr ''DECK_TO_LIFE_TOP'' then bindE (toKey (rt_string rt) player) (DECK_TO_LIFE_TOP s)
       else if ty = JStr ''DECK_TO_TRASH'' then bindE (toKey (rt_string rt) player) (DECK_TO_TRASH s)
       else if ty = JStr ''LIFE_TO_HAND'' then bindE (toKey (rt_string rt) player) (LIFE_TO_HAND s)
       else if ty = JStr ''LIFE_TO_TRASH'' then bindE (toKey (rt_string rt) player) (LIFE_TO_TRASH s)
       else if ty = JStr ''DON_SET'' then DON_SET rt s player target val
       else if ty = JStr ''SHUFFLE'' then SHUFFLE rt s path
       else if ty = JStr ''MULLIGAN'' then bindE (toKey (rt_string rt) player) (MULLIGAN rt s)
       else if ty = JStr ''REFRESH'' then bindE (toKey (rt_string rt) player) (REFRESH rt s)
       else if ty = JStr ''REVEAL_LIFE'' then
         bindE (toKey (rt_string rt) player) (\<lambda>p. REVEAL_LIFE s p cards)
       else Inr s))))))"

subsection \<open>The server around the reducer\<close>

text \<open>
  What a handler sends: \<open>io.to(room).emit(ev, x)\<close> reaches every socket joined to the
  room (each socket is joined to the room named by its own id), \<open>socket.emit(ev, x)\<close>
  reaches that socket, \<open>socket.to(room).emit(ev, x)\<close> reaches every socket of the room
  but that one, and \<open>ack(x)\<close> answers the sender's callback.
\<close>

datatype 'a emission =
    IoTo string string 'a
  | SocketEmit string string 'a
  | SocketTo string string string 'a
  | Ack string 'a

type_synonym rooms = "string \<rightharpoonup> state"

definition getRoom :: "rooms \<Rightarrow> string \<Rightarrow> rooms \<times> state" where
  "getRoom rooms roomId =
     (case rooms roomId of
        None \<Rightarrow> (rooms(roomId \<mapsto> makeInitialState), makeInitialState)
      | Some s \<Rightarrow> (rooms, s))"

text \<open>
  The message is the JSON rendering of the document after the increment, with its
  reveal-sets as arrays; the emission carries the document it is rendered from.
\<close>

definition broadcast :: "rooms \<Rightarrow> string \<Rightarrow> rooms \<times> state emission list" where
  "broadcast rooms roomId =
     (let (rooms1, s) = getRoom rooms roomId;
          s' = s\<lparr>version := version s + 1\<rparr>
      in (rooms1(roomId \<mapsto> s'), [IoTo roomId ''state:update'' s']))"

datatype proto_event = Connection string | Action string jv | Disconnect string

definition on_connection :: "rooms \<Rightarrow> string \<Rightarrow> rooms \<times> state emission list" where
  "on_connection rooms sid =
     (let (rooms1, s) = getRoom rooms ''game-1''
      in (rooms1, [IoTo sid ''state:update'' s]))"

definition on_action :: "runtime \<Rightarrow> rooms \<Rightarrow> jv \<Rightarrow> error + rooms \<times> state emission list" where
  "on_action rt rooms a =
     (let (rooms1, s) = getRoom rooms ''game-1'' in
      case applyAction rt s a of
        Inl e \<Rightarrow> Inl e
      | Inr s' \<Rightarrow> Inr (broadcast (rooms1(''game-1'' \<mapsto> s')) ''game-1''))"

text \<open>The handler of one event; the sender of an action is not looked at.\<close>

definition proto_handle ::
  "runtime \<Rightarrow> rooms \<Rightarrow> proto_event \<Rightarrow> error + rooms \<times> state emission list" where
  "proto_handle rt rooms ev =
     (case ev of
        Connection sid \<Rightarrow> Inr (on_connection rooms sid)
      | Action sid a \<Rightarrow> on_action rt rooms a
      | Disconnect sid \<Rightarrow> Inr (rooms, []))"


section \<open>onpc-multi: rooms, roster and relay\<close>

datatype role = PLAYER | SPEC

record participant =
  name :: string
  role :: role
  seat :: string

text \<open>
  \<open>roster\<close> is a \<open>Map\<close> from socket id to participant, in insertion order; \<open>state\<close> is the
  last pushed snapshot, \<open>null\<close> at first.
\<close>

record roomInfo =
  roster :: "(string \<times> participant) list"
  state :: jv
  nextSpecNo :: nat

definition createRoomInfo :: roomInfo where
  "createRoomInfo = \<lparr> roster = [], state = JNull, nextSpecNo = 1 \<rparr>"

definition getPlayers :: "roomInfo \<Rightarrow> participant list" where
  "getPlayers info = filter (\<lambda>p. role p = PLAYER) (map snd (roster info))"

definition countSpectators :: "roomInfo \<Rightarrow> nat" where
  "countSpectators info = length (filter (\<lambda>p. role p = SPEC) (map snd (roster info)))"

definition role_name :: "role \<Rightarrow> string" where
  "role_name r = (case r of PLAYER \<Rightarrow> ''PLAYER'' | SPEC \<Rightarrow> ''SPEC'')"

definition publishRoster :: "string \<Rightarrow> roomInfo \<Rightarrow> jv emission" where
  "publishRoster roomId info =
     IoTo roomId ''room:roster''
       (JArr (map (\<lambda>(id, p). JObj [(''id'', JStr id), (''name'', JStr (name p)),
                                    (''role'', JStr (role_name (role p))), (''seat'', JStr (seat p))])
                  (roster info)))"

text \<open>A handshake query parameter: absent, given once, or given several times.\<close>

datatype qval = QAbsent | QOne string | QMany "string list"

fun join_comma :: "string list \<Rightarrow> string" where
  "join_comma [] = []"
| "join_comma [x] = x"
| "join_comma (x # y # ys) = x @ '','' @ join_comma (y # ys)"

definition q_string :: "qval \<Rightarrow> string" where
  "q_string q = (case q of QAbsent \<Rightarrow> ''undefined'' | QOne s \<Rightarrow> s | QMany xs \<Rightarrow> join_comma xs)"

definition q_value :: "qval \<Rightarrow> jv" where
  "q_value q = (case q of QAbsent \<Rightarrow> JUndefined | QOne s \<Rightarrow> JStr s | QMany xs \<Rightarrow> JArr (map JStr xs))"

definition q_default :: "qval \<Rightarrow> string \<Rightarrow> qval" where
  "q_default q d = (case q of QAbsent \<Rightarrow> QOne d | _ \<Rightarrow> q)"

text \<open>\<open>count >= MAX_SPECTATORS\<close>, the bound being any number the environment gives.\<close>

definition ge_num :: "nat \<Rightarrow> jsnum \<Rightarrow> bool" where
  "ge_num n m = (case m of NaN \<Rightarrow> False | PosInf \<Rightarrow> False | NegInf \<Rightarrow> True | Fin r \<Rightarrow> r \<le> of_nat n)"

text \<open>
  The server: the registry \<open>roomState\<close> maps a room id to its info object, held in a
  store of objects by reference, since each socket's handlers keep the object they were
  given at connection while the disconnect handler looks the room id up again.
  \<open>sockets\<close> lists the connected sockets that were let in, with the room they joined and
  the object their handlers hold.
\<close>

record multi_server =
  roomState :: "string \<rightharpoonup> nat"
  infos :: "nat \<Rightarrow> roomInfo"
  fresh :: nat
  sockets :: "(string \<times> string \<times> nat) list"

definition multi_init :: multi_server where
  "multi_init = \<lparr> roomState = Map.empty, infos = (\<lambda>r. createRoomInfo), fresh = 0, sockets = [] \<rparr>"

text \<open>The sockets a message reaches, given the sockets connected when it is sent.\<close>

definition receivers :: "(string \<times> string \<times> nat) list \<Rightarrow> 'a emission \<Rightarrow> string list" where
  "receivers socks e =
     (case e of
        IoTo room ev x \<Rightarrow> map fst (filter (\<lambda>(sid, r, i). r = room \<or> sid = room) socks)
      | SocketEmit sid ev x \<Rightarrow> [sid]
      | SocketTo sid room ev x \<Rightarrow> map fst (filter (\<lambda>(sid', r, i). (r = room \<or> sid' = room) \<and> sid' \<noteq> sid) socks)
      | Ack sid x \<Rightarrow> [sid])"


subsection \<open>Connection\<close>

datatype outcome = Joined role string | Refused

text \<open>\<open>String(name || 'anon')\<close>, the name entered in the roster.\<close>

definition display_name :: "qval \<Rightarrow> string" where
  "display_name nm =
     (let nm1 = q_default nm ''anon'' in if truthy (q_value nm1) then q_string nm1 else ''anon'')"

text \<open>
  \<open>connection srv maxSpectators sid room name role\<close>: the handler for a new socket
  \<open>sid\<close> with the three query parameters. It returns the server afterwards, what was
  sent, and whether the socket was let in. A refused socket is disconnected before any
  handler is registered for it.
\<close>

definition connection ::
  "multi_server \<Rightarrow> jsnum \<Rightarrow> string \<Rightarrow> qval \<Rightarrow> qval \<Rightarrow> qval \<Rightarrow>
     multi_server \<times> jv emission list \<times> outcome" where
  "connection srv maxSpectators sid room nm requestedRole =
     (let roomId = q_string (q_default room ''dev'');
          nm1 = q_default nm ''anon'';
          srv1 = (case roomState srv roomId of
                    Some r \<Rightarrow> srv
                  | None \<Rightarrow> srv\<lparr>roomState := (roomState srv)(roomId \<mapsto> fresh srv),
                              infos := (infos srv)(fresh srv := createRoomInfo),
                              fresh := fresh srv + 1\<rparr>);
          r = the (roomState srv1 roomId);
          info = infos srv1 r;
          currentPlayers = getPlayers info;
          rl = (if requestedRole = QOne ''spec'' \<or> 2 \<le> length currentPlayers then SPEC else PLAYER)
      in
      if rl = SPEC \<and> ge_num (countSpectators info) maxSpectators
      then (srv1, [SocketEmit sid ''room:spectators_full'' (JObj [(''room'', JStr roomId)])], Refused)
      else
        let st = (if rl = PLAYER
                  then (if ''P1'' \<in> set (map seat currentPlayers) then ''P2'' else ''P1'')
                  else ''SPEC'' @ show_nat (nextSpecNo info));
            info1 = (if rl = PLAYER then info else info\<lparr>nextSpecNo := nextSpecNo info + 1\<rparr>);
            who = \<lparr> name = display_name nm, role = rl, seat = st \<rparr>;
            info2 = info1\<lparr>roster := AList.update sid who (roster info1)\<rparr>;
            srv2 = srv1\<lparr>infos := (infos srv1)(r := info2),
                        sockets := sockets srv1 @ [(sid, roomId, r)]\<rparr>
        in (srv2,
            [SocketEmit sid ''room:hello''
               (JObj [(''room'', JStr roomId), (''name'', q_value nm1),
                      (''role'', JStr (role_name rl)), (''seat'', JStr st)]),
             publishRoster roomId info2]
            @ (if truthy (state info2) then [SocketEmit sid ''snapshot:apply'' (state info2)] else []),
            Joined rl st))"

subsection \<open>Handlers of a connected socket\<close>

text \<open>
  The second argument of an \<open>action\<close> event is the client's callback, or whatever else
  the client put there; \<open>if (ack) ack(x)\<close> calls it when it is truthy, and calling a value
  that is no function throws. The result is what was sent and the error thrown, if any.
\<close>

datatype ackarg = AckFn | AckVal jv

definition call_ack :: "ackarg \<Rightarrow> string \<Rightarrow> jv \<Rightarrow> jv emission list \<times> error option" where
  "call_ack ack sid x =
     (case ack of
        AckFn \<Rightarrow> ([Ack sid x], None)
      | AckVal v \<Rightarrow> if truthy v then ([], Some TypeError) else ([], None))"

text \<open>\<open>{ ...payload }\<close>: the own enumerable properties of the payload, in order.\<close>

definition spread :: "jv \<Rightarrow> (string \<times> jv) list" where
  "spread v =
     (case v of
        JObj fs \<Rightarrow> fs
      | JArr xs \<Rightarrow> map (\<lambda>i. (show_nat i, xs ! i)) [0..<length xs]
      | JStr s \<Rightarrow> map (\<lambda>i. (show_nat i, JStr [s ! i])) [0..<length s]
      | _ \<Rightarrow> [])"

definition me_of :: "multi_server \<Rightarrow> string \<Rightarrow> nat \<Rightarrow> participant option" where
  "me_of srv sid r = map_of (roster (infos srv r)) sid"

text \<open>
  A socket that is not in \<open>sockets\<close> has no handlers: its events do nothing. \<open>now\<close> is
  what \<open>Date.now()\<close> returns. A handler returns the server afterwards, what it has sent in
  the order of sending, and the error it has thrown at the end, if any; an accepted action
  is sent to the room before the callback is called.
\<close>

definition action ::
  "multi_server \<Rightarrow> int \<Rightarrow> string \<Rightarrow> jv \<Rightarrow> ackarg \<Rightarrow> multi_server \<times> jv emission list \<times> error option" where
  "action srv now sid payload0 ack =
     (case map_of (sockets srv) sid of
        None \<Rightarrow> (srv, [], None)
      | Some (roomId, r) \<Rightarrow>
          (let payload = (if payload0 = JUndefined then JObj [] else payload0);
               denied = call_ack ack sid (JObj [(''ok'', JBool False), (''reason'', JStr ''spectator'')])
           in
           case me_of srv sid r of
             None \<Rightarrow> (srv, fst denied, snd denied)
           | Some me \<Rightarrow>
               if role me \<noteq> PLAYER
               then (srv, fst denied, snd denied)
               else
                 let enriched = JObj (AList.update ''_ts'' (JNum (Fin (of_int now)))
                                        (AList.update ''_from'' (JStr sid) (spread payload)));
                     ok = call_ack ack sid (JObj [(''ok'', JBool True)])
                 in (srv, IoTo roomId ''action'' enriched # fst ok, snd ok)))"

definition snapshot_push ::
  "multi_server \<Rightarrow> string \<Rightarrow> jv \<Rightarrow> multi_server \<times> jv emission list" where
  "snapshot_push srv sid st =
     (case map_of (sockets srv) sid of
        None \<Rightarrow> (srv, [])
      | Some (roomId, r) \<Rightarrow>
          (case me_of srv sid r of
             None \<Rightarrow> (srv, [])
           | Some me \<Rightarrow>
               if role me \<noteq> PLAYER then (srv, [])
               else (srv\<lparr>infos := (infos srv)(r := (infos srv r)\<lparr>state := st\<rparr>)\<rparr>,
                     [SocketTo sid roomId ''snapshot:apply'' st])))"

definition snapshot_pull :: "multi_server \<Rightarrow> string \<Rightarrow> multi_server \<times> jv emission list" where
  "snapshot_pull srv sid =
     (case map_of (sockets srv) sid of
        None \<Rightarrow> (srv, [])
      | Some (roomId, r) \<Rightarrow>
          (srv, if truthy (state (infos srv r))
                then [SocketEmit sid ''snapshot:apply'' (state (infos srv r))] else []))"

text \<open>
  The socket has left its rooms when \<open>disconnect\<close> fires. The handler looks the room
  up in the registry by its id.
\<close>

definition disconnect :: "multi_server \<Rightarrow> string \<Rightarrow> multi_server \<times> jv emission list" where
  "disconnect srv sid =
     (case map_of (sockets srv) sid of
        None \<Rightarrow> (srv, [])
      | Some (roomId, r0) \<Rightarrow>
          (let srv1 = srv\<lparr>sockets := AList.delete sid (sockets srv)\<rparr> in
           case roomState srv1 roomId of
             None \<Rightarrow> (srv1, [])
           | Some r \<Rightarrow>
               (let info = (infos srv1 r)\<lparr>roster := AList.delete sid (roster (infos srv1 r))\<rparr>;
                    srv2 = srv1\<lparr>infos := (infos srv1)(r := info)\<rparr>
                in (if roster info = [] then srv2\<lparr>roomState := (roomState srv2)(roomId := None)\<rparr> else srv2,
                    [publishRoster roomId info]))))"

datatype multi_event =
    MConnect string qval qval qval
  | MAction string jv ackarg
  | MPush string jv
  | MPull string
  | MDisconnect string

definition multi_handle ::
  "jsnum \<Rightarrow> int \<Rightarrow> multi_server \<Rightarrow> multi_event \<Rightarrow> multi_server \<times> jv emission list \<times> error option" where
  "multi_handle maxSpectators now srv ev =
     (case ev of
        MConnect sid room nm rl \<Rightarrow>
          (let (srv', out, res) = connection srv maxSpectators sid room nm rl in (srv', out, None))
      | MAction sid payload ack \<Rightarrow> action srv now sid payload ack
      | MPush sid st \<Rightarrow> (let (srv', out) = snapshot_push srv sid st in (srv', out, None))
      | MPull sid \<Rightarrow> (let (srv', out) = snapshot_pull srv sid in (srv', out, None))
      | MDisconnect sid \<Rightarrow> (let (srv', out) = disconnect srv sid in (srv', out, None)))"

section \<open>Notions used to state the properties\<close>

text \<open>A run of the authoritative server: each event comes with the runtime it meets.\<close>

fun proto_run :: "rooms \<Rightarrow> (runtime \<times> proto_event) list \<Rightarrow> error + rooms" where
  "proto_run rooms [] = Inr rooms"
| "proto_run rooms ((rt, ev) # evs) =
     (case proto_handle rt rooms ev of
        Inl e \<Rightarrow> Inl e
      | Inr (rooms', out) \<Rightarrow> proto_run rooms' evs)"

fun is_action :: "proto_event \<Rightarrow> bool" where
  "is_action (Action sid a) = True"
| "is_action _ = False"

text \<open>The document of the one room of the authoritative server, as \<open>getRoom\<close> sees it.\<close>

definition document :: "rooms \<Rightarrow> state" where
  "document rooms = snd (getRoom rooms ''game-1'')"

text \<open>The mirrored counts, by zone.\<close>

definition counts :: "zone \<Rightarrow> state \<Rightarrow> side \<Rightarrow> int" where
  "counts z s = (case z of ZDeck \<Rightarrow> deckCounts s | ZHand \<Rightarrow> handCounts s
                         | ZLife \<Rightarrow> lifeCounts s | ZTrash \<Rightarrow> trashCounts s)"

text \<open>The five move-top kinds: source and destination zone.\<close>

definition move_top :: "string \<Rightarrow> (zone \<times> zone) option" where
  "move_top ty =
     (if ty = ''DRAW_TO_HAND'' then Some (ZDeck, ZHand)
      else if ty = ''DECK_TO_LIFE_TOP'' then Some (ZDeck, ZLife)
      else if ty = ''DECK_TO_TRASH'' then Some (ZDeck, ZTrash)
      else if ty = ''LIFE_TO_HAND'' then Some (ZLife, ZHand)
      else if ty = ''LIFE_TO_TRASH'' then Some (ZLife, ZTrash)
      else None)"



text \<open>The ten kinds the reducer has a case for.\<close>

definition known_kinds :: "string list" where
  "known_kinds = [''DRAW_TO_HAND'', ''DECK_TO_LIFE_TOP'', ''DECK_TO_TRASH'', ''LIFE_TO_HAND'',
     ''LIFE_TO_TRASH'', ''DON_SET'', ''SHUFFLE'', ''MULLIGAN'', ''REFRESH'', ''REVEAL_LIFE'']"



text \<open>
  A runtime for concrete runs: every text is not a number, every draw is 0, and no walk
  through inherited properties throws.
\<close>

definition rt0 :: runtime where
  "rt0 = \<lparr> rt_number = (\<lambda>v. NaN), rt_string = (\<lambda>v. ''[object Object]''),
           rt_pick = (\<lambda>k n. 0), rt_inherited = (\<lambda>h ks. False) \<rparr>"

text \<open>The info object a connection to \<open>roomId\<close> finds, or is about to create.\<close>

definition info_of :: "multi_server \<Rightarrow> string \<Rightarrow> roomInfo" where
  "info_of srv roomId = (case roomState srv roomId of Some r \<Rightarrow> infos srv r | None \<Rightarrow> createRoomInfo)"




text \<open>
  A concrete run of the relay server with no spectator limit: ann, bob and cy join room
  dev in this order, none asking for the spectator role.
\<close>

definition join1 :: "multi_server \<times> jv emission list \<times> outcome" where
  "join1 = connection multi_init PosInf ''p1'' (QOne ''dev'') (QOne ''ann'') QAbsent"

definition join2 :: "multi_server \<times> jv emission list \<times> outcome" where
  "join2 = connection (fst join1) PosInf ''p2'' (QOne ''dev'') (QOne ''bob'') QAbsent"

definition join3 :: "multi_server \<times> jv emission list \<times> outcome" where
  "join3 = connection (fst join2) PosInf ''p3'' (QOne ''dev'') (QOne ''cy'') QAbsent"

text \<open>
  The states the relay server reaches. Socket ids are unique: a connection event carries
  an id that no connected socket has. A handler that throws ends the process.
\<close>

definition admissible :: "multi_server \<Rightarrow> multi_event \<Rightarrow> bool" where
  "admissible srv ev =
     (case ev of MConnect sid room nm rl \<Rightarrow> sid \<notin> fst ` set (sockets srv) | _ \<Rightarrow> True)"

inductive reachable :: "jsnum \<Rightarrow> multi_server \<Rightarrow> bool" for maxSpectators :: jsnum where
  start: "reachable maxSpectators multi_init"
| step: "reachable maxSpectators srv \<Longrightarrow> admissible srv ev \<Longrightarrow>
         multi_handle maxSpectators now srv ev = (srv', out, None) \<Longrightarrow>
         reachable maxSpectators srv'"

text \<open>
  Registry, rosters and connected sockets fit together: every registered room has a
  roster that is not empty and lists connected sockets of that room only, every connected
  socket is in the roster of its room's registered info object, and no two rooms share an
  info object.
\<close>

definition consistent :: "multi_server \<Rightarrow> bool" where
  "consistent srv \<longleftrightarrow>
     (\<forall>rid r. roomState srv rid = Some r \<longrightarrow>
        r < fresh srv \<and> roster (infos srv r) \<noteq> [] \<and>
        (\<forall>sid \<in> fst ` set (roster (infos srv r)). (sid, rid, r) \<in> set (sockets srv))) \<and>
     (\<forall>rid rid' r. roomState srv rid = Some r \<and> roomState srv rid' = Some r \<longrightarrow> rid = rid') \<and>
     (\<forall>sid rid r. (sid, rid, r) \<in> set (sockets srv) \<longrightarrow>
        roomState srv rid = Some r \<and> sid \<in> fst ` set (roster (infos srv r))) \<and>
     distinct (map fst (sockets srv))"

section \<open>The version counter\<close>

lemma document_connection: "document (fst (on_connection rooms sid)) = document rooms"
  by (simp add: on_connection_def document_def getRoom_def split: option.splits prod.splits)

lemma document_broadcast:
  "document (fst (broadcast rooms ''game-1'')) = (document rooms)\<lparr>version := version (document rooms) + 1\<rparr>"
  by (simp add: broadcast_def document_def getRoom_def Let_def split: option.splits prod.splits)

lemma document_update: "document (rooms(''game-1'' \<mapsto> s)) = s"
  by (simp add: document_def getRoom_def)

lemma draw_version: "version (draw s q) = version s"
  by (simp add: draw_def split: list.splits)

lemma give_back_version: "version (give_back s q) = version s"
proof (induction s q rule: give_back.induct)
  case (1 s q)
  show ?case
  proof (cases "handImages s q")
    case Nil
    then show ?thesis by (simp add: give_back.simps)
  next
    case (Cons c cs)
    then show ?thesis using "1.IH"[OF Cons] by (subst give_back.simps) simp
  qed
qed

lemma draw_five_version: "version (draw_five i s q) = version s"
proof (induction i s q rule: draw_five.induct)
  case (1 i s q)
  show ?case
  proof (cases "i < min 5 (length (deckImages s q))")
    case True
    have "draw_five i s q = draw_five (i + 1) (draw s q) q"
      using True by (subst draw_five.simps) auto
    then show ?thesis using "1.IH"[OF True] by (simp add: draw_version)
  next
    case False
    have "draw_five i s q = s"
      using False by (subst draw_five.simps) auto
    then show ?thesis by simp
  qed
qed

lemma shuffle_at_version: "version (shuffle_at rnd s l) = version s"
  by (simp add: shuffle_at_def split: arrloc.splits zone.splits)

lemma pool_cases_version:
  "DRAW_TO_HAND s p = Inr s' \<Longrightarrow> version s' = version s"
  "DECK_TO_LIFE_TOP s p = Inr s' \<Longrightarrow> version s' = version s"
  "DECK_TO_TRASH s p = Inr s' \<Longrightarrow> version s' = version s"
  "LIFE_TO_HAND s p = Inr s' \<Longrightarrow> version s' = version s"
  "LIFE_TO_TRASH s p = Inr s' \<Longrightarrow> version s' = version s"
  by (auto simp: DRAW_TO_HAND_def DECK_TO_LIFE_TOP_def DECK_TO_TRASH_def LIFE_TO_HAND_def
        LIFE_TO_TRASH_def inherited_move_def draw_version
        split: option.splits list.splits inherited.splits if_splits)

lemma other_cases_version:
  "DON_SET rt s pl tg v = Inr s' \<Longrightarrow> version s' = version s"
  "SHUFFLE rt s path = Inr s' \<Longrightarrow> version s' = version s"
  "MULLIGAN rt s p = Inr s' \<Longrightarrow> version s' = version s"
  "REFRESH rt s p = Inr s' \<Longrightarrow> version s' = version s"
  "REVEAL_LIFE s p cards = Inr s' \<Longrightarrow> version s' = version s"
  by (auto simp: DON_SET_def bindE_def SHUFFLE_def MULLIGAN_def REFRESH_def REVEAL_LIFE_def Let_def
        draw_version draw_five_version give_back_version shuffle_at_version
        split: option.splits list.splits jv.splits node.splits found.splits inherited.splits if_splits sum.splits)

lemma applyAction_version: "applyAction rt s a = Inr s' \<Longrightarrow> version s' = version s"
  unfolding applyAction_def bindE_def Let_def
  by (auto split: sum.splits if_splits simp: pool_cases_version other_cases_version)

lemma handle_version:
  assumes "proto_handle rt rooms ev = Inr (rooms', out)"
  shows "version (document rooms') = version (document rooms) + (if is_action ev then 1 else 0)"
proof (cases ev)
  case (Connection sid)
  with assms show ?thesis using document_connection[of rooms sid]
    by (auto simp: proto_handle_def)
next
  case (Action sid a)
  obtain rooms1 s where g: "getRoom rooms ''game-1'' = (rooms1, s)" by (cases "getRoom rooms ''game-1''")
  from assms Action g obtain s' where a: "applyAction rt s a = Inr s'"
    and b: "broadcast (rooms1(''game-1'' \<mapsto> s')) ''game-1'' = (rooms', out)"
    by (auto simp: proto_handle_def on_action_def split: sum.splits)
  have "document rooms' = s'\<lparr>version := version s' + 1\<rparr>"
    using document_broadcast[of "rooms1(''game-1'' \<mapsto> s')"] b by (simp add: document_update)
  moreover have "document rooms = s" using g by (simp add: document_def)
  ultimately show ?thesis using applyAction_version[OF a] Action by simp
next
  case (Disconnect sid)
  with assms show ?thesis by (auto simp: proto_handle_def)
qed


text \<open>
  C1. Along any run of the authoritative server that the process survives, the version
  of the room's document is its version at the start plus the number of action events
  handled: each action, no-op or not, adds exactly 1, and connections and disconnections
  add nothing, so the version never decreases and is never reset. The actions handled
  include those whose player key is no side but a member that plain objects inherit,
  such as \<open>toString\<close>, which the reducer passes over or breaks on without throwing.
\<close>

theorem version_counts_actions:
  "proto_run rooms evs = Inr rooms' \<Longrightarrow>
   version (document rooms') = version (document rooms) + int (length (filter is_action (map snd evs)))"
proof (induction evs arbitrary: rooms)
  case Nil
  then show ?case by simp
next
  case (Cons e evs)
  obtain rt ev where e: "e = (rt, ev)" by (cases e)
  from Cons.prems e obtain rooms1 out where h: "proto_handle rt rooms ev = Inr (rooms1, out)"
    and r: "proto_run rooms1 evs = Inr rooms'"
    by (auto split: sum.splits)
  show ?case using Cons.IH[OF r] handle_version[OF h] e by simp
qed

theorem version_counts_actions_witness:
  "\<exists>rooms'. proto_run Map.empty
       [(rt0, Connection ''s1''),
        (rt0, Action ''s1'' (JObj [(''type'', JStr ''DRAW_TO_HAND''), (''player'', JStr ''A'')])),
        (rt0, Action ''s2'' (JObj [(''type'', JStr ''PASS'')])),
        (rt0, Action ''s2'' (JObj [(''type'', JStr ''DRAW_TO_HAND''), (''player'', JStr ''toString'')])),
        (rt0, Action ''s1'' (JObj [(''type'', JStr ''REFRESH''), (''player'', JStr ''valueOf'')])),
        (rt0, Disconnect ''s1'')] = Inr rooms' \<and>
     version (document rooms') = 4"
proof -
  have "\<exists>rooms'. proto_run Map.empty
       [(rt0, Connection ''s1''),
        (rt0, Action ''s1'' (JObj [(''type'', JStr ''DRAW_TO_HAND''), (''player'', JStr ''A'')])),
        (rt0, Action ''s2'' (JObj [(''type'', JStr ''PASS'')])),
        (rt0, Action ''s2'' (JObj [(''type'', JStr ''DRAW_TO_HAND''), (''player'', JStr ''toString'')])),
        (rt0, Action ''s1'' (JObj [(''type'', JStr ''REFRESH''), (''player'', JStr ''valueOf'')])),
        (rt0, Disconnect ''s1'')] = Inr rooms'"
    by (simp add: proto_handle_def on_connection_def on_action_def getRoom_def broadcast_def
        applyAction_def bindE_def getf_def toKey_def DRAW_TO_HAND_def REFRESH_def sideOf_def
        inherited_move_def object_prototype_def Let_def)
  then obtain rooms' where r: "proto_run Map.empty
       [(rt0, Connection ''s1''),
        (rt0, Action ''s1'' (JObj [(''type'', JStr ''DRAW_TO_HAND''), (''player'', JStr ''A'')])),
        (rt0, Action ''s2'' (JObj [(''type'', JStr ''PASS'')])),
        (rt0, Action ''s2'' (JObj [(''type'', JStr ''DRAW_TO_HAND''), (''player'', JStr ''toString'')])),
        (rt0, Action ''s1'' (JObj [(''type'', JStr ''REFRESH''), (''player'', JStr ''valueOf'')])),
        (rt0, Disconnect ''s1'')] = Inr rooms'" by blast
  have "version (document (Map.empty :: rooms)) = 0"
    by (simp add: document_def getRoom_def makeInitialState_def)
  with version_counts_actions [OF r] r show ?thesis by simp
qed

section \<open>The move-top actions\<close>

lemma getf_total: "getf a k = Inr v \<Longrightarrow> \<exists>w. getf a k' = Inr w"
  by (cases a) (auto simp: getf_def split: option.splits)

lemma set_set_delete: "set (set_delete xs x) = set xs - {x}"
  by (auto simp: set_delete_def)

lemma applyAction_dispatch:
  assumes "getf a ''type'' = Inr ty"
  shows "\<exists>player target val path cards.
    getf a ''player'' = Inr player \<and> getf a ''target'' = Inr target \<and> getf a ''value'' = Inr val \<and>
    getf a ''path'' = Inr path \<and> getf a ''cards'' = Inr cards \<and>
    applyAction rt s a =
      (if ty = JStr ''DRAW_TO_HAND'' then bindE (toKey (rt_string rt) player) (DRAW_TO_HAND s)
       else if ty = JStr ''DECK_TO_LIFE_TOP'' then bindE (toKey (rt_string rt) player) (DECK_TO_LIFE_TOP s)
       else if ty = JStr ''DECK_TO_TRASH'' then bindE (toKey (rt_string rt) player) (DECK_TO_TRASH s)
       else if ty = JStr ''LIFE_TO_HAND'' then bindE (toKey (rt_string rt) player) (LIFE_TO_HAND s)
       else if ty = JStr ''LIFE_TO_TRASH'' then bindE (toKey (rt_string rt) player) (LIFE_TO_TRASH s)
       else if ty = JStr ''DON_SET'' then DON_SET rt s player target val
       else if ty = JStr ''SHUFFLE'' then SHUFFLE rt s path
       else if ty = JStr ''MULLIGAN'' then bindE (toKey (rt_string rt) player) (MULLIGAN rt s)
       else if ty = JStr ''REFRESH'' then bindE (toKey (rt_string rt) player) (REFRESH rt s)
       else if ty = JStr ''REVEAL_LIFE'' then
         bindE (toKey (rt_string rt) player) (\<lambda>p. REVEAL_LIFE s p cards)
       else Inr s)"
proof -
  obtain player where 1: "getf a ''player'' = Inr player" using getf_total[OF assms] by blast
  obtain target where 2: "getf a ''target'' = Inr target" using getf_total[OF assms] by blast
  obtain val where 3: "getf a ''value'' = Inr val" using getf_total[OF assms] by blast
  obtain path where 4: "getf a ''path'' = Inr path" using getf_total[OF assms] by blast
  obtain cards where 5: "getf a ''cards'' = Inr cards" using getf_total[OF assms] by blast
  have "applyAction rt s a =
      (if ty = JStr ''DRAW_TO_HAND'' then bindE (toKey (rt_string rt) player) (DRAW_TO_HAND s)
       else if ty = JStr ''DECK_TO_LIFE_TOP'' then bindE (toKey (rt_string rt) player) (DECK_TO_LIFE_TOP s)
       else if ty = JStr ''DECK_TO_TRASH'' then bindE (toKey (rt_string rt) player) (DECK_TO_TRASH s)
       else if ty = JStr ''LIFE_TO_HAND'' then bindE (toKey (rt_string rt) player) (LIFE_TO_HAND s)
       else if ty = JStr ''LIFE_TO_TRASH'' then bindE (toKey (rt_string rt) player) (LIFE_TO_TRASH s)
       else if ty = JStr ''DON_SET'' then DON_SET rt s player target val
       else if ty = JStr ''SHUFFLE'' then SHUFFLE rt s path
       else if ty = JStr ''MULLIGAN'' then bindE (toKey (rt_string rt) player) (MULLIGAN rt s)
       else if ty = JStr ''REFRESH'' then bindE (toKey (rt_string rt) player) (REFRESH rt s)
       else if ty = JStr ''REVEAL_LIFE'' then
         bindE (toKey (rt_string rt) player) (\<lambda>p. REVEAL_LIFE s p cards)
       else Inr s)"
    unfolding applyAction_def bindE_def by (simp only: assms 1 2 3 4 5 sum.case)
  with 1 2 3 4 5 show ?thesis by blast
qed

lemma move_top_cases:
  assumes "move_top ty = Some (src, dst)"
  obtains "ty = ''DRAW_TO_HAND''" "src = ZDeck" "dst = ZHand"
    | "ty = ''DECK_TO_LIFE_TOP''" "src = ZDeck" "dst = ZLife"
    | "ty = ''DECK_TO_TRASH''" "src = ZDeck" "dst = ZTrash"
    | "ty = ''LIFE_TO_HAND''" "src = ZLife" "dst = ZHand"
    | "ty = ''LIFE_TO_TRASH''" "src = ZLife" "dst = ZTrash"
  using assms unfolding move_top_def by (auto split: if_splits)

lemma move_top_apply:
  assumes ty: "getf a ''type'' = Inr (JStr ty)" and mt: "move_top ty = Some (src, dst)"
    and pl: "getf a ''player'' = Inr pl" and ky: "toKey (rt_string rt) pl = Inr k"
  shows "applyAction rt s a =
     (if src = ZDeck \<and> dst = ZHand then DRAW_TO_HAND s k
      else if src = ZDeck \<and> dst = ZLife then DECK_TO_LIFE_TOP s k
      else if src = ZDeck \<and> dst = ZTrash then DECK_TO_TRASH s k
      else if src = ZLife \<and> dst = ZHand then LIFE_TO_HAND s k
      else LIFE_TO_TRASH s k)"
proof -
  from applyAction_dispatch[OF ty, of rt s] pl obtain target val path cards where
    d: "applyAction rt s a =
      (if JStr ty = JStr ''DRAW_TO_HAND'' then bindE (toKey (rt_string rt) pl) (DRAW_TO_HAND s)
       else if JStr ty = JStr ''DECK_TO_LIFE_TOP'' then bindE (toKey (rt_string rt) pl) (DECK_TO_LIFE_TOP s)
       else if JStr ty = JStr ''DECK_TO_TRASH'' then bindE (toKey (rt_string rt) pl) (DECK_TO_TRASH s)
       else if JStr ty = JStr ''LIFE_TO_HAND'' then bindE (toKey (rt_string rt) pl) (LIFE_TO_HAND s)
       else if JStr ty = JStr ''LIFE_TO_TRASH'' then bindE (toKey (rt_string rt) pl) (LIFE_TO_TRASH s)
       else if JStr ty = JStr ''DON_SET'' then DON_SET rt s pl target val
       else if JStr ty = JStr ''SHUFFLE'' then SHUFFLE rt s path
       else if JStr ty = JStr ''MULLIGAN'' then bindE (toKey (rt_string rt) pl) (MULLIGAN rt s)
       else if JStr ty = JStr ''REFRESH'' then bindE (toKey (rt_string rt) pl) (REFRESH rt s)
       else if JStr ty = JStr ''REVEAL_LIFE'' then
         bindE (toKey (rt_string rt) pl) (\<lambda>p. REVEAL_LIFE s p cards)
       else Inr s)"
    by auto
  from mt show ?thesis
    by (cases rule: move_top_cases) (simp_all add: d ky bindE_def)
qed


text \<open>
  C2. For each of the five move-top kinds and each side, the reducer returns; if the
  source sequence of that side is empty the document is unchanged, otherwise its first
  element is removed and put at the front of the destination sequence, the source count
  goes down by 1 and the destination count up by 1, and for the two moves out of the life
  zone the moved reference leaves that side's life reveal-set.
\<close>

theorem move_top_effect:
  assumes ty: "getf a ''type'' = Inr (JStr ty)" and mt: "move_top ty = Some (src, dst)"
    and pl: "getf a ''player'' = Inr pl" and ky: "toKey (rt_string rt) pl = Inr k"
    and sd: "sideOf k = Some q"
  shows "\<exists>s'. applyAction rt s a = Inr s' \<and>
     (case images src s q of
        [] \<Rightarrow> s' = s
      | c # rest \<Rightarrow>
          images src s' q = rest \<and> images dst s' q = c # images dst s q \<and>
          counts src s' q = counts src s q - 1 \<and> counts dst s' q = counts dst s q + 1 \<and>
          (src = ZLife \<longrightarrow> set (revealedLife s' q) = set (revealedLife s q) - {JStr c}))"
  using mt
  by (cases rule: move_top_cases)
    (auto simp: move_top_apply[OF ty mt pl ky] sd DRAW_TO_HAND_def DECK_TO_LIFE_TOP_def
       DECK_TO_TRASH_def LIFE_TO_HAND_def LIFE_TO_TRASH_def draw_def images_def counts_def
       set_set_delete split: list.splits)

theorem move_top_effect_witness:
  "\<exists>s'. applyAction rt0
          (makeInitialState\<lparr>lifeImages := (\<lambda>p. [''x'', ''y'']),
                            revealedLife := (\<lambda>p. [JStr ''x'', JStr ''z''])\<rparr>)
          (JObj [(''type'', JStr ''LIFE_TO_HAND''), (''player'', JStr ''A'')]) = Inr s' \<and>
        images ZLife s' A = [''y''] \<and> images ZHand s' A = [''x''] \<and>
        counts ZLife s' A = - 1 \<and> counts ZHand s' A = 1 \<and>
        set (revealedLife s' A) = {JStr ''z''}"
  using move_top_effect [of "JObj [(''type'', JStr ''LIFE_TO_HAND''), (''player'', JStr ''A'')]"
      "''LIFE_TO_HAND''" ZLife ZHand "JStr ''A''" rt0 "''A''" A
      "makeInitialState\<lparr>lifeImages := (\<lambda>p. [''x'', ''y'']),
                            revealedLife := (\<lambda>p. [JStr ''x'', JStr ''z''])\<rparr>"]
  by (simp add: getf_def move_top_def toKey_def sideOf_def images_def counts_def makeInitialState_def)

section \<open>No-ops and malformed payloads\<close>

lemma on_action_result:
  assumes "applyAction rt (document rooms) a = Inr s'"
  shows "on_action rt rooms a =
     Inr (rooms(''game-1'' \<mapsto> s'\<lparr>version := version s' + 1\<rparr>),
          [IoTo ''game-1'' ''state:update'' (s'\<lparr>version := version s' + 1\<rparr>)])"
  using assms
  by (auto simp: on_action_def document_def getRoom_def broadcast_def Let_def split: option.splits)

lemma unknown_kind_noop:
  assumes ty: "getf a ''type'' = Inr ty" and un: "\<forall>k \<in> set known_kinds. ty \<noteq> JStr k"
  shows "applyAction rt s a = Inr s"
proof -
  from applyAction_dispatch[OF ty, of rt s] obtain player target val path cards where
    d: "applyAction rt s a =
      (if ty = JStr ''DRAW_TO_HAND'' then bindE (toKey (rt_string rt) player) (DRAW_TO_HAND s)
       else if ty = JStr ''DECK_TO_LIFE_TOP'' then bindE (toKey (rt_string rt) player) (DECK_TO_LIFE_TOP s)
       else if ty = JStr ''DECK_TO_TRASH'' then bindE (toKey (rt_string rt) player) (DECK_TO_TRASH s)
       else if ty = JStr ''LIFE_TO_HAND'' then bindE (toKey (rt_string rt) player) (LIFE_TO_HAND s)
       else if ty = JStr ''LIFE_TO_TRASH'' then bindE (toKey (rt_string rt) player) (LIFE_TO_TRASH s)
       else if ty = JStr ''DON_SET'' then DON_SET rt s player target val
       else if ty = JStr ''SHUFFLE'' then SHUFFLE rt s path
       else if ty = JStr ''MULLIGAN'' then bindE (toKey (rt_string rt) player) (MULLIGAN rt s)
       else if ty = JStr ''REFRESH'' then bindE (toKey (rt_string rt) player) (REFRESH rt s)
       else if ty = JStr ''REVEAL_LIFE'' then
         bindE (toKey (rt_string rt) player) (\<lambda>p. REVEAL_LIFE s p cards)
       else Inr s)"
    by blast
  from un have "ty \<noteq> JStr ''DRAW_TO_HAND''" "ty \<noteq> JStr ''DECK_TO_LIFE_TOP''"
    "ty \<noteq> JStr ''DECK_TO_TRASH''" "ty \<noteq> JStr ''LIFE_TO_HAND''" "ty \<noteq> JStr ''LIFE_TO_TRASH''"
    "ty \<noteq> JStr ''DON_SET''" "ty \<noteq> JStr ''SHUFFLE''" "ty \<noteq> JStr ''MULLIGAN''"
    "ty \<noteq> JStr ''REFRESH''" "ty \<noteq> JStr ''REVEAL_LIFE''"
    by (simp_all add: known_kinds_def)
  then show ?thesis by (simp add: d)
qed

lemma empty_source_noop:
  assumes ty: "getf a ''type'' = Inr (JStr k)" and mt: "move_top k = Some (src, dst)"
    and pl: "getf a ''player'' = Inr pl" and ky: "toKey (rt_string rt) pl = Inr key"
    and sd: "sideOf key = Some q"
    and em: "images src s q = []"
  shows "applyAction rt s a = Inr s"
  using mt em
  by (cases rule: move_top_cases)
    (simp_all add: move_top_apply[OF ty mt pl ky] sd DRAW_TO_HAND_def DECK_TO_LIFE_TOP_def
       DECK_TO_TRASH_def LIFE_TO_HAND_def LIFE_TO_TRASH_def draw_def images_def)

text \<open>
  C5. An action whose kind matches no case of the reducer, and a move-top action whose
  source sequence is empty, leave the document as it is; the handler still accepts the
  action: it stores the same document with the version advanced by 1 and broadcasts it.
\<close>

theorem noop_still_accepted:
  assumes ty: "getf a ''type'' = Inr ty"
    and nop: "(\<forall>k \<in> set known_kinds. ty \<noteq> JStr k) \<or>
              (\<exists>k src dst pl key q. ty = JStr k \<and> move_top k = Some (src, dst) \<and>
                 getf a ''player'' = Inr pl \<and> toKey (rt_string rt) pl = Inr key \<and>
                 sideOf key = Some q \<and>
                 images src (document rooms) q = [])"
  shows "applyAction rt (document rooms) a = Inr (document rooms) \<and>
         on_action rt rooms a =
           Inr (rooms(''game-1'' \<mapsto> (document rooms)\<lparr>version := version (document rooms) + 1\<rparr>),
                [IoTo ''game-1'' ''state:update''
                   ((document rooms)\<lparr>version := version (document rooms) + 1\<rparr>)])"
proof -
  have "applyAction rt (document rooms) a = Inr (document rooms)"
    using nop
  proof
    assume "\<forall>k \<in> set known_kinds. ty \<noteq> JStr k"
    then show ?thesis by (rule unknown_kind_noop[OF ty])
  next
    assume "\<exists>k src dst pl key q. ty = JStr k \<and> move_top k = Some (src, dst) \<and>
                 getf a ''player'' = Inr pl \<and> toKey (rt_string rt) pl = Inr key \<and>
                 sideOf key = Some q \<and>
                 images src (document rooms) q = []"
    then show ?thesis using ty by (auto intro: empty_source_noop)
  qed
  then show ?thesis using on_action_result[of rt rooms a "document rooms"] by simp
qed

theorem noop_still_accepted_witness:
  "on_action rt0 Map.empty (JObj [(''type'', JStr ''PASS'')]) =
     Inr ([''game-1'' \<mapsto> makeInitialState\<lparr>version := 1\<rparr>],
          [IoTo ''game-1'' ''state:update'' (makeInitialState\<lparr>version := 1\<rparr>)]) \<and>
   on_action rt0 Map.empty (JObj [(''type'', JStr ''LIFE_TO_TRASH''), (''player'', JStr ''B'')]) =
     Inr ([''game-1'' \<mapsto> makeInitialState\<lparr>version := 1\<rparr>],
          [IoTo ''game-1'' ''state:update'' (makeInitialState\<lparr>version := 1\<rparr>)])"
proof -
  have d: "document Map.empty = makeInitialState"
    by (simp add: document_def getRoom_def)
  have v: "version makeInitialState = 0"
    by (simp add: makeInitialState_def)
  have e: "images ZLife makeInitialState B = []"
    by (simp add: images_def makeInitialState_def)
  have 1: "on_action rt0 Map.empty (JObj [(''type'', JStr ''PASS'')]) =
     Inr ([''game-1'' \<mapsto> makeInitialState\<lparr>version := 1\<rparr>],
          [IoTo ''game-1'' ''state:update'' (makeInitialState\<lparr>version := 1\<rparr>)])"
    using noop_still_accepted [of "JObj [(''type'', JStr ''PASS'')]" "JStr ''PASS''" rt0 Map.empty]
    by (simp add: getf_def known_kinds_def d v)
  have "\<exists>k src dst pl key q. JStr ''LIFE_TO_TRASH'' = JStr k \<and> move_top k = Some (src, dst) \<and>
          getf (JObj [(''type'', JStr ''LIFE_TO_TRASH''), (''player'', JStr ''B'')]) ''player'' = Inr pl \<and>
          toKey (rt_string rt0) pl = Inr key \<and>
          sideOf key = Some q \<and> images src (document Map.empty) q = []"
    by (rule exI[of _ "''LIFE_TO_TRASH''"], rule exI[of _ ZLife], rule exI[of _ ZTrash],
        rule exI[of _ "JStr ''B''"], rule exI[of _ "''B''"], rule exI[of _ B])
      (simp add: move_top_def getf_def toKey_def sideOf_def d e)
  then have 2: "on_action rt0 Map.empty (JObj [(''type'', JStr ''LIFE_TO_TRASH''), (''player'', JStr ''B'')]) =
     Inr ([''game-1'' \<mapsto> makeInitialState\<lparr>version := 1\<rparr>],
          [IoTo ''game-1'' ''state:update'' (makeInitialState\<lparr>version := 1\<rparr>)])"
    using noop_still_accepted [of "JObj [(''type'', JStr ''LIFE_TO_TRASH''), (''player'', JStr ''B'')]"
        "JStr ''LIFE_TO_TRASH''" rt0 Map.empty]
    by (simp add: getf_def d v)
  from 1 2 show ?thesis by simp
qed

text \<open>
  C6. Payloads with a missing field that make the handler throw: a shuffle without a
  path, a reveal without a card list, a draw without a player, and a null payload. A
  missing resource value, in contrast, is coerced and clamps to 0.
\<close>

theorem malformed_payload_throws:
  "on_action rt rooms (JObj [(''type'', JStr ''SHUFFLE'')]) = Inl TypeError \<and>
   on_action rt rooms (JObj [(''type'', JStr ''REVEAL_LIFE''), (''player'', JStr ''A'')]) = Inl TypeError \<and>
   on_action rt rooms (JObj [(''type'', JStr ''DRAW_TO_HAND'')]) = Inl TypeError \<and>
   on_action rt rooms JNull = Inl TypeError \<and>
   clamp (rt_number rt) JUndefined 0 10 = Inr 0"
  by (simp add: on_action_def applyAction_def bindE_def getf_def SHUFFLE_def REVEAL_LIFE_def
      DRAW_TO_HAND_def inherited_move_def object_prototype_def toKey_def sideOf_def
      clamp_def clamp_num_def toNumber_def toInt32_def
      split: prod.splits)

section \<open>Refresh\<close>

lemma toInt32_of_int:
  assumes "- 2147483648 \<le> n" "n < 2147483648"
  shows "toInt32 (Fin (of_int n)) = n"
proof -
  have t: "trunc (of_int n) = n"
    by (simp add: trunc_def)
  have "wrap32 n = n"
  proof (cases "0 \<le> n")
    case True
    with assms have "n mod 4294967296 = n" by simp
    with assms show ?thesis by (simp add: wrap32_def Let_def)
  next
    case False
    from False assms have "(n + 4294967296) mod 4294967296 = n + 4294967296"
      by (intro mod_pos_pos_trivial) simp_all
    then have "n mod 4294967296 = n + 4294967296"
      by simp
    with False assms show ?thesis by (simp add: wrap32_def Let_def)
  qed
  with t show ?thesis by (simp add: toInt32_def)
qed

lemma draw_pools:
  "donDeck (draw s q) = donDeck s" "donAct (draw s q) = donAct s" "donRest (draw s q) = donRest s"
  by (simp_all add: draw_def split: list.splits)

lemma init_pools:
  "donDeck makeInitialState = \<lparr>onSide = (\<lambda>p. 10), others = Map.empty\<rparr>"
  "donAct makeInitialState = \<lparr>onSide = (\<lambda>p. 0), others = Map.empty\<rparr>"
  "donRest makeInitialState = \<lparr>onSide = (\<lambda>p. 0), others = Map.empty\<rparr>"
  by (simp_all add: makeInitialState_def)

lemma refresh_apply:
  assumes ty: "getf a ''type'' = Inr (JStr ''REFRESH'')" and pl: "getf a ''player'' = Inr pl"
    and ky: "toKey (rt_string rt) pl = Inr k"
  shows "applyAction rt s a = REFRESH rt s k"
  using applyAction_dispatch[OF ty, of rt s] pl ky by (auto simp: bindE_def)

text \<open>
  C7. As amended: a Refresh for a side resets the rested sub-pool to 0, takes
  \<open>min 2 reserve\<close> units out of the reserve, sets the active sub-pool to its old
  value plus that amount, clamped to the range from 0 to 10 (units above the ceiling are
  dropped), and then draws: one move-top from deck to hand if the deck is not empty.
\<close>

theorem refresh_effect:
  assumes ty: "getf a ''type'' = Inr (JStr ''REFRESH'')" and pl: "getf a ''player'' = Inr pl"
    and ky: "toKey (rt_string rt) pl = Inr k" and sd: "sideOf k = Some q"
    and lo: "- 2147483648 \<le> onSide (donAct s) q + min 2 (onSide (donDeck s) q)"
    and hi: "onSide (donAct s) q + min 2 (onSide (donDeck s) q) < 2147483648"
  shows "applyAction rt s a =
     Inr (draw
       (s\<lparr>donRest := (donRest s)\<lparr>onSide := (onSide (donRest s))(q := 0)\<rparr>,
          donDeck := (donDeck s)\<lparr>onSide := (onSide (donDeck s))
             (q := onSide (donDeck s) q - min 2 (onSide (donDeck s) q))\<rparr>,
          donAct := (donAct s)\<lparr>onSide := (onSide (donAct s))
             (q := min 10 (max 0 (onSide (donAct s) q + min 2 (onSide (donDeck s) q))))\<rparr>\<rparr>) q)"
  using toInt32_of_int[OF lo hi]
  by (simp add: refresh_apply[OF ty pl ky] REFRESH_def sd pool_set_def Let_def clamp_num_def)

theorem refresh_effect_witness:
  "applyAction rt0 (makeInitialState\<lparr>deckImages := (\<lambda>p. [''c1'', ''c2''])\<rparr>)
     (JObj [(''type'', JStr ''REFRESH''), (''player'', JStr ''A'')]) =
   Inr (draw
       (makeInitialState\<lparr>deckImages := (\<lambda>p. [''c1'', ''c2'']),
          donRest := \<lparr>onSide = (\<lambda>p. 0)(A := 0), others = Map.empty\<rparr>,
          donDeck := \<lparr>onSide = (\<lambda>p. 10)(A := 8), others = Map.empty\<rparr>,
          donAct := \<lparr>onSide = (\<lambda>p. 0)(A := 2), others = Map.empty\<rparr>\<rparr>) A)"
  using refresh_effect [of "JObj [(''type'', JStr ''REFRESH''), (''player'', JStr ''A'')]"
      "JStr ''A''" rt0 "''A''" A "makeInitialState\<lparr>deckImages := (\<lambda>p. [''c1'', ''c2''])\<rparr>"]
  by (simp add: getf_def toKey_def sideOf_def init_pools)

text \<open>
  C7, as stated, fails: with the active sub-pool at its ceiling of 10 (set by a
  set-resource action) and 10 units in reserve, a Refresh takes 2 units out of the reserve
  and the active sub-pool stays at 10.
\<close>

theorem refresh_loses_units:
  "(case applyAction rt0 makeInitialState
           (JObj [(''type'', JStr ''DON_SET''), (''player'', JStr ''A''),
                  (''target'', JStr ''act''), (''value'', JNum (Fin 10))]) of
      Inl e \<Rightarrow> False
    | Inr s1 \<Rightarrow>
        onSide (donDeck s1) A = 10 \<and> onSide (donAct s1) A = 10 \<and>
        (case applyAction rt0 s1 (JObj [(''type'', JStr ''REFRESH''), (''player'', JStr ''A'')]) of
           Inl e \<Rightarrow> False
         | Inr s2 \<Rightarrow> onSide (donDeck s2) A = 8 \<and> onSide (donAct s2) A = 10))"
proof -
  have c: "clamp (rt_number rt0) (JNum (Fin 10)) 0 10 = Inr 10" "clamp_num (Fin 12) 0 10 = 10"
    by (simp_all add: clamp_def clamp_num_def toNumber_def toInt32_def trunc_def wrap32_def)
  have 1: "applyAction rt0 makeInitialState
           (JObj [(''type'', JStr ''DON_SET''), (''player'', JStr ''A''),
                  (''target'', JStr ''act''), (''value'', JNum (Fin 10))]) =
        Inr (makeInitialState\<lparr>donAct := pool_set (donAct makeInitialState) ''A'' 10\<rparr>)"
    by (simp add: applyAction_def bindE_def getf_def toKey_def DON_SET_def c)
  have 2: "applyAction rt0 s (JObj [(''type'', JStr ''REFRESH''), (''player'', JStr ''A'')]) =
        REFRESH rt0 s ''A''" for s
    by (simp add: applyAction_def bindE_def getf_def toKey_def)
  have 3: "donAct (makeInitialState\<lparr>donAct := pool_set (donAct makeInitialState) ''A'' 10\<rparr>) =
        \<lparr>onSide = (\<lambda>p. 0)(A := 10), others = Map.empty\<rparr>"
    "donDeck (makeInitialState\<lparr>donAct := pool_set (donAct makeInitialState) ''A'' 10\<rparr>) =
        \<lparr>onSide = (\<lambda>p. 10), others = Map.empty\<rparr>"
    by (simp_all add: pool_set_def sideOf_def init_pools)
  have 4: "\<exists>s2. REFRESH rt0 (makeInitialState\<lparr>donAct := pool_set (donAct makeInitialState) ''A'' 10\<rparr>) ''A'' = Inr s2 \<and>
        onSide (donDeck s2) A = 8 \<and> onSide (donAct s2) A = 10"
    by (simp add: REFRESH_def sideOf_def Let_def draw_pools init_pools c)
      (simp add: pool_set_def sideOf_def c init_pools)
  from 1 2 3 4 show ?thesis by auto
qed

section \<open>Shuffle\<close>






















section \<open>Joining a room\<close>

lemma show_nat_1: "show_nat (Suc 0) = ''1''"
  by code_simp

lemma getPlayers_fresh: "getPlayers createRoomInfo = []" "countSpectators createRoomInfo = 0"
  "nextSpecNo createRoomInfo = 1" "roster createRoomInfo = []"
  by (simp_all add: getPlayers_def countSpectators_def createRoomInfo_def)








section \<open>Rooms left behind\<close>

text \<open>
  C4. With a spectator limit of 0, the first connection to room dev asks for the
  spectator role: the room is created, the connection is refused before it is entered
  in the roster or given a disconnect handler, and the room stays in the registry with an
  empty roster.
\<close>

theorem refused_join_leaves_empty_room:
  "snd (snd (connection multi_init (Fin 0) ''s1'' (QOne ''dev'') (QOne ''ann'') (QOne ''spec''))) = Refused \<and>
   roomState (fst (connection multi_init (Fin 0) ''s1'' (QOne ''dev'') (QOne ''ann'') (QOne ''spec''))) ''dev'' = Some 0 \<and>
   roster (infos (fst (connection multi_init (Fin 0) ''s1'' (QOne ''dev'') (QOne ''ann'') (QOne ''spec''))) 0) = [] \<and>
   sockets (fst (connection multi_init (Fin 0) ''s1'' (QOne ''dev'') (QOne ''ann'') (QOne ''spec''))) = [] \<and>
   disconnect (fst (connection multi_init (Fin 0) ''s1'' (QOne ''dev'') (QOne ''ann'') (QOne ''spec''))) ''s1'' =
     (fst (connection multi_init (Fin 0) ''s1'' (QOne ''dev'') (QOne ''ann'') (QOne ''spec'')), [])"
  by (simp add: connection_def multi_init_def q_string_def q_default_def Let_def
      getPlayers_fresh ge_num_def disconnect_def)

section \<open>Relay of actions\<close>

lemma join1_state:
  "roomState (fst join1) = [''dev'' \<mapsto> 0]"
  "infos (fst join1) 0 = \<lparr>roster = [(''p1'', \<lparr>name = ''ann'', role = PLAYER, seat = ''P1''\<rparr>)],
                           state = JNull, nextSpecNo = 1\<rparr>"
  "sockets (fst join1) = [(''p1'', ''dev'', 0)]"
  by (simp_all add: join1_def connection_def multi_init_def q_string_def q_default_def q_value_def
      Let_def getPlayers_def countSpectators_def createRoomInfo_def display_name_def)

lemma join2_state:
  "roomState (fst join2) = [''dev'' \<mapsto> 0]"
  "infos (fst join2) 0 = \<lparr>roster = [(''p1'', \<lparr>name = ''ann'', role = PLAYER, seat = ''P1''\<rparr>),
                                      (''p2'', \<lparr>name = ''bob'', role = PLAYER, seat = ''P2''\<rparr>)],
                           state = JNull, nextSpecNo = 1\<rparr>"
  "sockets (fst join2) = [(''p1'', ''dev'', 0), (''p2'', ''dev'', 0)]"
  by (simp_all add: join2_def connection_def join1_state q_string_def q_default_def q_value_def
      Let_def getPlayers_def display_name_def)

lemma join3_state:
  "roomState (fst join3) = [''dev'' \<mapsto> 0]"
  "infos (fst join3) 0 = \<lparr>roster = [(''p1'', \<lparr>name = ''ann'', role = PLAYER, seat = ''P1''\<rparr>),
                                      (''p2'', \<lparr>name = ''bob'', role = PLAYER, seat = ''P2''\<rparr>),
                                      (''p3'', \<lparr>name = ''cy'', role = SPEC, seat = ''SPEC1''\<rparr>)],
                           state = JNull, nextSpecNo = 2\<rparr>"
  "sockets (fst join3) = [(''p1'', ''dev'', 0), (''p2'', ''dev'', 0), (''p3'', ''dev'', 0)]"
  by (simp_all add: join3_def connection_def join2_state q_string_def q_default_def q_value_def
      Let_def getPlayers_def countSpectators_def ge_num_def show_nat_1 display_name_def)


lemma map_of_update_same: "map_of (AList.update k v xs) k = Some v"
  by (simp add: update_conv')

lemma map_of_update_other: "k' \<noteq> k \<Longrightarrow> map_of (AList.update k v xs) k' = map_of xs k'"
  by (simp add: update_conv')

text \<open>
  C8, as stated, fails: the action of the first player of a room of two is sent with
  \<open>io.to(room)\<close>, which reaches both players, the sender included.
\<close>

theorem relay_reaches_sender:
  "(case action (fst join2) 1000 ''p1'' (JObj [(''type'', JStr ''DRAW'')]) AckFn of
      (srv', out, err) \<Rightarrow>
        err = None \<and>
        out = [IoTo ''dev'' ''action''
                 (JObj [(''type'', JStr ''DRAW''), (''_from'', JStr ''p1''), (''_ts'', JNum (Fin 1000))]),
               Ack ''p1'' (JObj [(''ok'', JBool True)])] \<and>
        receivers (sockets (fst join2)) (hd out) = [''p1'', ''p2''])"
  by (simp add: action_def join2_state me_of_def call_ack_def spread_def receivers_def)

text \<open>
  C8. As amended: in relay mode, every action submitted by a seated PLAYER is stamped with
  the sender's connection id and the receipt time, the other fields of the payload being
  kept, and is sent to every member of the sender's room, the sender included, whatever
  comes as second argument; the server itself is unchanged. After that, a callback is
  called with \<open>{ ok: true }\<close>, and with no callback (a second argument that is not truthy)
  nothing more is sent. A second argument that is truthy and no function makes the handler
  throw at this point, after the action was sent.
\<close>

theorem relay_action:
  assumes so: "map_of (sockets srv) sid = Some (roomId, r)"
    and me: "me_of srv sid r = Some me" and pl: "role me = PLAYER"
  shows "\<exists>fs. map_of fs ''_from'' = Some (JStr sid) \<and>
          map_of fs ''_ts'' = Some (JNum (Fin (of_int now))) \<and>
          (\<forall>k. k \<noteq> ''_from'' \<and> k \<noteq> ''_ts'' \<longrightarrow>
             map_of fs k = map_of (spread (if payload = JUndefined then JObj [] else payload)) k) \<and>
          sid \<in> set (receivers (sockets srv) (IoTo roomId ''action'' (JObj fs))) \<and>
          (\<forall>sid' r'. (sid', roomId, r') \<in> set (sockets srv) \<longrightarrow>
             sid' \<in> set (receivers (sockets srv) (IoTo roomId ''action'' (JObj fs)))) \<and>
          action srv now sid payload AckFn =
            (srv, [IoTo roomId ''action'' (JObj fs), Ack sid (JObj [(''ok'', JBool True)])], None) \<and>
          (\<forall>v. \<not> truthy v \<longrightarrow>
             action srv now sid payload (AckVal v) = (srv, [IoTo roomId ''action'' (JObj fs)], None)) \<and>
          (\<forall>v. truthy v \<longrightarrow>
             action srv now sid payload (AckVal v) =
               (srv, [IoTo roomId ''action'' (JObj fs)], Some TypeError))"
proof -
  let ?fs = "AList.update ''_ts'' (JNum (Fin (of_int now)))
               (AList.update ''_from'' (JStr sid)
                  (spread (if payload = JUndefined then JObj [] else payload)))"
  have a: "action srv now sid payload AckFn =
            (srv, [IoTo roomId ''action'' (JObj ?fs), Ack sid (JObj [(''ok'', JBool True)])], None)"
    "\<forall>v. \<not> truthy v \<longrightarrow>
       action srv now sid payload (AckVal v) = (srv, [IoTo roomId ''action'' (JObj ?fs)], None)"
    "\<forall>v. truthy v \<longrightarrow>
       action srv now sid payload (AckVal v) = (srv, [IoTo roomId ''action'' (JObj ?fs)], Some TypeError)"
    using so me pl by (simp_all add: action_def call_ack_def Let_def)
  have b: "map_of ?fs ''_from'' = Some (JStr sid)"
    by (simp add: map_of_update_other map_of_update_same)
  have c: "map_of ?fs ''_ts'' = Some (JNum (Fin (of_int now)))"
    by (simp add: map_of_update_same)
  have d: "\<forall>k. k \<noteq> ''_from'' \<and> k \<noteq> ''_ts'' \<longrightarrow>
             map_of ?fs k = map_of (spread (if payload = JUndefined then JObj [] else payload)) k"
    by (simp add: map_of_update_other)
  have e: "\<forall>sid' r'. (sid', roomId, r') \<in> set (sockets srv) \<longrightarrow>
             sid' \<in> set (receivers (sockets srv) (IoTo roomId ''action'' (JObj ?fs)))"
    by (force simp: receivers_def)
  from so have "(sid, roomId, r) \<in> set (sockets srv)"
    by (rule map_of_SomeD)
  with e have f: "sid \<in> set (receivers (sockets srv) (IoTo roomId ''action'' (JObj ?fs)))"
    by blast
  from a b c d e f show ?thesis by blast
qed

theorem relay_action_witness:
  "\<exists>fs. action (fst join2) 1000 ''p2'' (JObj [(''type'', JStr ''DRAW'')]) AckFn =
            (fst join2, [IoTo ''dev'' ''action'' (JObj fs), Ack ''p2'' (JObj [(''ok'', JBool True)])], None) \<and>
          action (fst join2) 1000 ''p2'' (JObj [(''type'', JStr ''DRAW'')]) (AckVal JUndefined) =
            (fst join2, [IoTo ''dev'' ''action'' (JObj fs)], None) \<and>
          action (fst join2) 1000 ''p2'' (JObj [(''type'', JStr ''DRAW'')]) (AckVal (JNum (Fin 5))) =
            (fst join2, [IoTo ''dev'' ''action'' (JObj fs)], Some TypeError) \<and>
          map_of fs ''_from'' = Some (JStr ''p2'') \<and>
          map_of fs ''type'' = Some (JStr ''DRAW'') \<and>
          ''p2'' \<in> set (receivers (sockets (fst join2)) (IoTo ''dev'' ''action'' (JObj fs))) \<and>
          ''p1'' \<in> set (receivers (sockets (fst join2)) (IoTo ''dev'' ''action'' (JObj fs)))"
proof -
  have so: "map_of (sockets (fst join2)) ''p2'' = Some (''dev'', 0)"
    by (simp add: join2_state)
  have me: "me_of (fst join2) ''p2'' 0 = Some \<lparr>name = ''bob'', role = PLAYER, seat = ''P2''\<rparr>"
    by (simp add: me_of_def join2_state)
  have pl: "role \<lparr>name = ''bob'', role = PLAYER, seat = ''P2''\<rparr> = PLAYER"
    by simp
  have m: "(''p1'', ''dev'', 0) \<in> set (sockets (fst join2))"
    by (simp add: join2_state)
  have t: "map_of (spread (JObj [(''type'', JStr ''DRAW'')])) ''type'' = Some (JStr ''DRAW'')"
    by (simp add: spread_def)
  have tr: "\<not> truthy JUndefined" "truthy (JNum (Fin 5))"
    by simp_all
  from relay_action [OF so me pl, of 1000 "JObj [(''type'', JStr ''DRAW'')]"] obtain fs where
    f: "map_of fs ''_from'' = Some (JStr ''p2'')"
      "\<forall>k. k \<noteq> ''_from'' \<and> k \<noteq> ''_ts'' \<longrightarrow>
             map_of fs k = map_of (spread (if JObj [(''type'', JStr ''DRAW'')] = JUndefined then JObj []
                                           else JObj [(''type'', JStr ''DRAW'')])) k"
      "''p2'' \<in> set (receivers (sockets (fst join2)) (IoTo ''dev'' ''action'' (JObj fs)))"
      "\<forall>sid' r'. (sid', ''dev'', r') \<in> set (sockets (fst join2)) \<longrightarrow>
             sid' \<in> set (receivers (sockets (fst join2)) (IoTo ''dev'' ''action'' (JObj fs)))"
      "action (fst join2) 1000 ''p2'' (JObj [(''type'', JStr ''DRAW'')]) AckFn =
            (fst join2, [IoTo ''dev'' ''action'' (JObj fs), Ack ''p2'' (JObj [(''ok'', JBool True)])], None)"
      "\<forall>v. \<not> truthy v \<longrightarrow>
         action (fst join2) 1000 ''p2'' (JObj [(''type'', JStr ''DRAW'')]) (AckVal v) =
           (fst join2, [IoTo ''dev'' ''action'' (JObj fs)], None)"
      "\<forall>v. truthy v \<longrightarrow>
         action (fst join2) 1000 ''p2'' (JObj [(''type'', JStr ''DRAW'')]) (AckVal v) =
           (fst join2, [IoTo ''dev'' ''action'' (JObj fs)], Some TypeError)"
    by blast
  from f(2) t have "map_of fs ''type'' = Some (JStr ''DRAW'')"
    by simp
  moreover from f(4) m have "''p1'' \<in> set (receivers (sockets (fst join2)) (IoTo ''dev'' ''action'' (JObj fs)))"
    by blast
  ultimately show ?thesis using f(1,3,5) f(6)[rule_format, OF tr(1)] f(7)[rule_format, OF tr(2)] by blast
qed

section \<open>Senders that are not players\<close>

text \<open>
  C9, as stated, fails in authoritative mode: that server keeps no roster and gives no
  role, and its handler applies and broadcasts the action of any connected socket.
\<close>

theorem authoritative_accepts_anyone:
  "(case proto_handle rt0 Map.empty
           (Action ''p3'' (JObj [(''type'', JStr ''DRAW_TO_HAND''), (''player'', JStr ''A'')])) of
      Inl e \<Rightarrow> False
    | Inr (rooms', out) \<Rightarrow>
        handCounts (document Map.empty) A = 0 \<and> handCounts (document rooms') A = 1 \<and>
        out = [IoTo ''game-1'' ''state:update'' (document rooms')])"
proof -
  have d: "document Map.empty = makeInitialState"
    by (simp add: document_def getRoom_def)
  have a: "applyAction rt0 (document Map.empty)
             (JObj [(''type'', JStr ''DRAW_TO_HAND''), (''player'', JStr ''A'')]) =
           Inr (draw makeInitialState A)"
    by (simp add: d applyAction_def bindE_def getf_def toKey_def DRAW_TO_HAND_def sideOf_def)
  have k: "deckImages makeInitialState A = deckImage ''A'' 0 # map (deckImage ''A'') [Suc 0..<50]"
    by (simp add: makeInitialState_def upt_conv_Cons)
  have h: "handCounts makeInitialState A = 0" "handCounts (draw makeInitialState A) A = 1"
    by (simp_all add: draw_def k) (simp_all add: makeInitialState_def)
  show ?thesis
    by (simp add: proto_handle_def on_action_result[OF a] document_update d h)
qed

text \<open>
  C9. As amended: in relay mode, a connected socket that has no roster entry with role
  PLAYER gets nothing broadcast: its action is answered through the callback with
  \<open>{ ok: false, reason: "spectator" }\<close> when it came with a callback, and with nothing
  when it came without one (a second argument that is not truthy); a second argument
  that is truthy and no function makes the handler throw at the call, before anything is
  sent. A snapshot it pushes is dropped. In all these cases the server, with its rosters
  and stored snapshots, is unchanged. In authoritative mode there are no roles: the
  handler does not look at the sender, and the action of any connection, whenever the
  reducer returns, is stored with the version advanced and broadcast to the room.
\<close>

theorem spectator_denied:
  assumes so: "map_of (sockets srv) sid = Some (roomId, r)"
    and np: "\<forall>me. me_of srv sid r = Some me \<longrightarrow> role me \<noteq> PLAYER"
  shows "action srv now sid payload AckFn =
           (srv, [Ack sid (JObj [(''ok'', JBool False), (''reason'', JStr ''spectator'')])], None) \<and>
         (\<forall>v. \<not> truthy v \<longrightarrow> action srv now sid payload (AckVal v) = (srv, [], None)) \<and>
         (\<forall>v. truthy v \<longrightarrow> action srv now sid payload (AckVal v) = (srv, [], Some TypeError)) \<and>
         snapshot_push srv sid st = (srv, []) \<and>
         (\<forall>sender. proto_handle rt rooms (Action sender a) = on_action rt rooms a) \<and>
         (\<forall>sender s'. applyAction rt (document rooms) a = Inr s' \<longrightarrow>
            proto_handle rt rooms (Action sender a) =
              Inr (rooms(''game-1'' \<mapsto> s'\<lparr>version := version s' + 1\<rparr>),
                   [IoTo ''game-1'' ''state:update'' (s'\<lparr>version := version s' + 1\<rparr>)]))"
proof -
  have 1: "action srv now sid payload AckFn =
           (srv, [Ack sid (JObj [(''ok'', JBool False), (''reason'', JStr ''spectator'')])], None)"
    "\<forall>v. \<not> truthy v \<longrightarrow> action srv now sid payload (AckVal v) = (srv, [], None)"
    "\<forall>v. truthy v \<longrightarrow> action srv now sid payload (AckVal v) = (srv, [], Some TypeError)"
    "snapshot_push srv sid st = (srv, [])"
    using so np
    by (cases "me_of srv sid r"; simp add: action_def snapshot_push_def call_ack_def Let_def)+
  have 2: "\<forall>sender. proto_handle rt rooms (Action sender a) = on_action rt rooms a"
    by (simp add: proto_handle_def)
  have 3: "\<forall>sender s'. applyAction rt (document rooms) a = Inr s' \<longrightarrow>
            proto_handle rt rooms (Action sender a) =
              Inr (rooms(''game-1'' \<mapsto> s'\<lparr>version := version s' + 1\<rparr>),
                   [IoTo ''game-1'' ''state:update'' (s'\<lparr>version := version s' + 1\<rparr>)])"
    by (simp add: proto_handle_def on_action_result)
  from 1 2 3 show ?thesis by blast
qed

theorem spectator_denied_witness:
  "action (fst join3) 1000 ''p3'' (JObj [(''type'', JStr ''DRAW'')]) AckFn =
     (fst join3, [Ack ''p3'' (JObj [(''ok'', JBool False), (''reason'', JStr ''spectator'')])], None) \<and>
   action (fst join3) 1000 ''p3'' (JObj [(''type'', JStr ''DRAW'')]) (AckVal JUndefined) =
     (fst join3, [], None) \<and>
   action (fst join3) 1000 ''p3'' (JObj [(''type'', JStr ''DRAW'')]) (AckVal (JStr ''cb'')) =
     (fst join3, [], Some TypeError) \<and>
   snapshot_push (fst join3) ''p3'' (JObj [(''turn'', JNum (Fin 3))]) = (fst join3, []) \<and>
   proto_handle rt0 Map.empty (Action ''p3'' (JObj [(''type'', JStr ''PASS'')])) =
     Inr ([''game-1'' \<mapsto> makeInitialState\<lparr>version := 1\<rparr>],
          [IoTo ''game-1'' ''state:update'' (makeInitialState\<lparr>version := 1\<rparr>)])"
proof -
  have so: "map_of (sockets (fst join3)) ''p3'' = Some (''dev'', 0)"
    by (simp add: join3_state)
  have np: "\<forall>me. me_of (fst join3) ''p3'' 0 = Some me \<longrightarrow> role me \<noteq> PLAYER"
    by (simp add: me_of_def join3_state)
  have tr: "\<not> truthy JUndefined" "truthy (JStr ''cb'')"
    by simp_all
  have d: "document Map.empty = makeInitialState" "version makeInitialState = 0"
    by (simp_all add: document_def getRoom_def makeInitialState_def)
  have a: "applyAction rt0 (document Map.empty) (JObj [(''type'', JStr ''PASS'')]) = Inr makeInitialState"
    by (simp add: d applyAction_def bindE_def getf_def)
  note t = spectator_denied [OF so np, of 1000 "JObj [(''type'', JStr ''DRAW'')]"
      "JObj [(''turn'', JNum (Fin 3))]" rt0 Map.empty "JObj [(''type'', JStr ''PASS'')]"]
  from t tr a d show ?thesis by auto
qed

section \<open>Reachable states of the relay server\<close>

lemma consistent_init: "consistent multi_init"
  by (simp add: consistent_def multi_init_def)

lemma fst_set_update: "fst ` set (AList.update k v xs) = insert k (fst ` set xs)"
  by (induction xs) auto

lemma update_not_Nil: "AList.update k v xs \<noteq> []"
  by (cases xs) auto

lemma fst_set_delete: "fst ` set (AList.delete k xs) = fst ` set xs - {k}"
  by (induction xs) auto

lemma consistent_action:
  "action srv now sid payload ack = (srv', out, err) \<Longrightarrow> srv' = srv"
  by (auto simp: action_def Let_def split: option.splits if_splits)

lemma consistent_pull: "snapshot_pull srv sid = (srv', out) \<Longrightarrow> srv' = srv"
  by (auto simp: snapshot_pull_def split: option.splits)

lemma consistent_cong:
  assumes "roomState srv' = roomState srv" "sockets srv' = sockets srv" "fresh srv' = fresh srv"
    "\<And>r. roster (infos srv' r) = roster (infos srv r)"
  shows "consistent srv' = consistent srv"
  unfolding consistent_def by (simp only: assms)

lemma push_keeps:
  assumes "snapshot_push srv sid st = (srv', out)"
  shows "roomState srv' = roomState srv" "sockets srv' = sockets srv" "fresh srv' = fresh srv"
    "roster (infos srv' r) = roster (infos srv r)"
  using assms
  by (auto simp: snapshot_push_def split: option.splits if_splits)

lemma consistent_push:
  assumes "consistent srv" "snapshot_push srv sid st = (srv', out)"
  shows "consistent srv'"
  using assms(1) consistent_cong[OF push_keeps[OF assms(2)]] by simp


lemma connection_new_room:
  assumes rid: "rid = q_string (q_default room ''dev'')" and new: "roomState srv rid = None"
    and cap: "\<not> ge_num 0 maxSpectators"
    and c: "connection srv maxSpectators sid room nm rr = (srv', out, res)"
  shows "\<exists>x. roster x \<noteq> [] \<and> fst ` set (roster x) = {sid} \<and>
           srv' = srv\<lparr>roomState := (roomState srv)(rid \<mapsto> fresh srv),
                      infos := (infos srv)(fresh srv := x),
                      fresh := fresh srv + 1,
                      sockets := sockets srv @ [(sid, rid, fresh srv)]\<rparr>"
proof -
  let ?srv1 = "srv\<lparr>roomState := (roomState srv)(rid \<mapsto> fresh srv),
                    infos := (infos srv)(fresh srv := createRoomInfo),
                    fresh := fresh srv + 1\<rparr>"
  let ?rl = "if rr = QOne ''spec'' then SPEC else PLAYER"
  let ?st = "if ?rl = PLAYER then ''P1'' else ''SPEC'' @ show_nat 1"
  let ?who = "\<lparr>name = display_name nm, role = ?rl, seat = ?st\<rparr>"
  let ?x = "(if ?rl = PLAYER then createRoomInfo else createRoomInfo\<lparr>nextSpecNo := 1 + 1\<rparr>)
              \<lparr>roster := [(sid, ?who)]\<rparr>"
  have "srv' = ?srv1\<lparr>infos := (infos ?srv1)(fresh srv := ?x),
                     sockets := sockets ?srv1 @ [(sid, rid, fresh srv)]\<rparr>"
    using c new cap rid
    by (simp add: connection_def Let_def getPlayers_fresh split: if_splits)
  then have "srv' = srv\<lparr>roomState := (roomState srv)(rid \<mapsto> fresh srv),
                      infos := (infos srv)(fresh srv := ?x),
                      fresh := fresh srv + 1,
                      sockets := sockets srv @ [(sid, rid, fresh srv)]\<rparr>"
    by simp
  moreover have "roster ?x \<noteq> []" "fst ` set (roster ?x) = {sid}"
    by simp_all
  ultimately show ?thesis by blast
qed

lemma connection_old_room:
  assumes rid: "rid = q_string (q_default room ''dev'')" and old: "roomState srv rid = Some r"
    and c: "connection srv maxSpectators sid room nm rr = (srv', out, res)"
  shows "srv' = srv \<or>
         (\<exists>x. fst ` set (roster x) = insert sid (fst ` set (roster (infos srv r))) \<and> roster x \<noteq> [] \<and>
            srv' = srv\<lparr>infos := (infos srv)(r := x), sockets := sockets srv @ [(sid, rid, r)]\<rparr>)"
proof (cases res)
  case Refused
  with c old rid have "srv' = srv"
    by (auto simp: connection_def Let_def split: if_splits)
  then show ?thesis by simp
next
  case (Joined rl st)
  with c old rid have "roster (infos srv' r) =
              AList.update sid \<lparr>name = display_name nm, role = rl, seat = st\<rparr>
                               (roster (infos srv r)) \<and>
            srv' = srv\<lparr>infos := (infos srv)(r := infos srv' r), sockets := sockets srv @ [(sid, rid, r)]\<rparr>"
    by (auto simp: connection_def Let_def split: if_splits)
  then show ?thesis
    by (metis fst_set_update update_not_Nil)
qed


lemma consistent_connection:
  assumes inv: "consistent srv" and new: "sid \<notin> fst ` set (sockets srv)"
    and cap: "\<not> ge_num 0 maxSpectators"
    and c: "connection srv maxSpectators sid room nm rr = (srv', out, res)"
  shows "consistent srv'"
proof -
  define rid where "rid = q_string (q_default room ''dev'')"
  from inv have i1: "\<And>rid r. roomState srv rid = Some r \<Longrightarrow> r < fresh srv"
    and i2: "\<And>rid r. roomState srv rid = Some r \<Longrightarrow> roster (infos srv r) \<noteq> []"
    and i3: "\<And>rid r s. roomState srv rid = Some r \<Longrightarrow> s \<in> fst ` set (roster (infos srv r)) \<Longrightarrow>
                (s, rid, r) \<in> set (sockets srv)"
    and i4: "\<And>rid rid' r. roomState srv rid = Some r \<Longrightarrow> roomState srv rid' = Some r \<Longrightarrow> rid = rid'"
    and i5: "\<And>s rid r. (s, rid, r) \<in> set (sockets srv) \<Longrightarrow> roomState srv rid = Some r"
    and i6: "\<And>s rid r. (s, rid, r) \<in> set (sockets srv) \<Longrightarrow> s \<in> fst ` set (roster (infos srv r))"
    and i7: "distinct (map fst (sockets srv))"
    unfolding consistent_def by blast+
  show ?thesis
  proof (cases "roomState srv rid")
    case None
    from connection_new_room[OF rid_def None cap c] obtain x where
      x: "roster x \<noteq> []" "fst ` set (roster x) = {sid}"
      and s: "srv' = srv\<lparr>roomState := (roomState srv)(rid \<mapsto> fresh srv),
                      infos := (infos srv)(fresh srv := x),
                      fresh := fresh srv + 1,
                      sockets := sockets srv @ [(sid, rid, fresh srv)]\<rparr>"
      by blast
    have ne: "\<And>rid' r. roomState srv rid' = Some r \<Longrightarrow> r \<noteq> fresh srv \<and> rid' \<noteq> rid"
      using i1 None by fastforce
    show ?thesis
      unfolding consistent_def
    proof (intro conjI allI impI)
      fix rid' r assume a: "roomState srv' rid' = Some r"
      show "r < fresh srv'" using a i1 s by (auto split: if_splits intro: less_SucI)
      show "roster (infos srv' r) \<noteq> []" using a i2 ne x s by (auto split: if_splits)
      show "\<forall>sid'\<in>fst ` set (roster (infos srv' r)). (sid', rid', r) \<in> set (sockets srv')"
      proof
        fix sid' assume b: "sid' \<in> fst ` set (roster (infos srv' r))"
        show "(sid', rid', r) \<in> set (sockets srv')"
        proof (cases "rid' = rid")
          case True
          with a b s x show ?thesis by auto
        next
          case False
          with a s have o: "roomState srv rid' = Some r" by simp
          with ne have "r \<noteq> fresh srv" by blast
          with b s have "sid' \<in> fst ` set (roster (infos srv r))" by simp
          from i3[OF o this] s show ?thesis by simp
        qed
      qed
    next
      fix rid1 rid2 r assume "roomState srv' rid1 = Some r \<and> roomState srv' rid2 = Some r"
      then have h: "roomState srv' rid1 = Some r" "roomState srv' rid2 = Some r" by simp_all
      show "rid1 = rid2"
      proof (cases "rid1 = rid")
        case True
        with h(1) s have "r = fresh srv" by simp
        with h(2) s ne[of rid2 r] have "rid2 = rid" by (cases "rid2 = rid") simp_all
        with True show ?thesis by simp
      next
        case False
        with h(1) s have o: "roomState srv rid1 = Some r" by simp
        with ne have "r \<noteq> fresh srv" by blast
        with h(2) s have "roomState srv rid2 = Some r" by (cases "rid2 = rid") simp_all
        with o show ?thesis by (rule i4)
      qed
    next
      fix s' rid' r assume a: "(s', rid', r) \<in> set (sockets srv')"
      show "roomState srv' rid' = Some r"
      proof (cases "(s', rid', r) \<in> set (sockets srv)")
        case True
        from ne[OF i5[OF True]] i5[OF True] s show ?thesis by simp
      next
        case False
        with a s show ?thesis by auto
      qed
      show "s' \<in> fst ` set (roster (infos srv' r))"
      proof (cases "(s', rid', r) \<in> set (sockets srv)")
        case True
        from ne[OF i5[OF True]] i6[OF True] s show ?thesis by simp
      next
        case False
        with a s x show ?thesis by auto
      qed
    next
      show "distinct (map fst (sockets srv'))" using s i7 new by simp
    qed
  next
    case (Some r)
    from connection_old_room[OF rid_def Some c] show ?thesis
    proof
      assume "srv' = srv"
      with inv show ?thesis by simp
    next
      assume "\<exists>x. fst ` set (roster x) = insert sid (fst ` set (roster (infos srv r))) \<and> roster x \<noteq> [] \<and>
            srv' = srv\<lparr>infos := (infos srv)(r := x), sockets := sockets srv @ [(sid, rid, r)]\<rparr>"
      then obtain x where x: "fst ` set (roster x) = insert sid (fst ` set (roster (infos srv r)))"
          "roster x \<noteq> []"
        and s: "srv' = srv\<lparr>infos := (infos srv)(r := x), sockets := sockets srv @ [(sid, rid, r)]\<rparr>"
        by blast
      show ?thesis
        unfolding consistent_def
      proof (intro conjI allI impI)
        fix rid' r' assume a: "roomState srv' rid' = Some r'"
        then have o: "roomState srv rid' = Some r'" using s by simp
        show "r' < fresh srv'" using o i1 s by simp
        show "roster (infos srv' r') \<noteq> []" using o i2 x s by simp
        show "\<forall>sid'\<in>fst ` set (roster (infos srv' r')). (sid', rid', r') \<in> set (sockets srv')"
        proof
          fix sid' assume b: "sid' \<in> fst ` set (roster (infos srv' r'))"
          show "(sid', rid', r') \<in> set (sockets srv')"
          proof (cases "r' = r")
            case True
            with o Some i4 have "rid' = rid" by blast
            with True b x s i3[OF Some] show ?thesis by auto
          next
            case False
            with b s have "sid' \<in> fst ` set (roster (infos srv r'))" by simp
            from i3[OF o this] s show ?thesis by simp
          qed
        qed
      next
        fix rid1 rid2 r' assume "roomState srv' rid1 = Some r' \<and> roomState srv' rid2 = Some r'"
        then show "rid1 = rid2" using s i4 by simp
      next
        fix s' rid' r' assume a: "(s', rid', r') \<in> set (sockets srv')"
        show "roomState srv' rid' = Some r'" using a s i5 Some by auto
        show "s' \<in> fst ` set (roster (infos srv' r'))"
        proof (cases "(s', rid', r') \<in> set (sockets srv)")
          case True
          from i6[OF True] s x show ?thesis by (cases "r' = r") simp_all
        next
          case False
          with a s x show ?thesis by auto
        qed
      next
        show "distinct (map fst (sockets srv'))" using s i7 new by simp
      qed
    qed
  qed
qed


lemma set_alist_delete: "set (AList.delete k xs) = {x \<in> set xs. fst x \<noteq> k}"
  by (induction xs) auto

lemma distinct_alist_delete: "distinct (map fst xs) \<Longrightarrow> distinct (map fst (AList.delete k xs))"
  by (induction xs) (auto simp: set_alist_delete)

lemma distinct_fst_unique:
  "distinct (map fst xs) \<Longrightarrow> (k, v) \<in> set xs \<Longrightarrow> (k, w) \<in> set xs \<Longrightarrow> v = w"
  by (induction xs) (auto simp: rev_image_eqI)

lemma consistent_disconnect:
  assumes inv: "consistent srv" and d: "disconnect srv sid = (srv', out)"
  shows "consistent srv'"
proof (cases "map_of (sockets srv) sid")
  case None
  with d have "srv' = srv" by (simp add: disconnect_def)
  with inv show ?thesis by simp
next
  case (Some p)
  obtain rid r where p: "p = (rid, r)" by (cases p)
  from inv have i1: "\<And>rid r. roomState srv rid = Some r \<Longrightarrow> r < fresh srv"
    and i2: "\<And>rid r. roomState srv rid = Some r \<Longrightarrow> roster (infos srv r) \<noteq> []"
    and i3: "\<And>rid r s. roomState srv rid = Some r \<Longrightarrow> s \<in> fst ` set (roster (infos srv r)) \<Longrightarrow>
                (s, rid, r) \<in> set (sockets srv)"
    and i4: "\<And>rid rid' r. roomState srv rid = Some r \<Longrightarrow> roomState srv rid' = Some r \<Longrightarrow> rid = rid'"
    and i5: "\<And>s rid r. (s, rid, r) \<in> set (sockets srv) \<Longrightarrow> roomState srv rid = Some r"
    and i6: "\<And>s rid r. (s, rid, r) \<in> set (sockets srv) \<Longrightarrow> s \<in> fst ` set (roster (infos srv r))"
    and i7: "distinct (map fst (sockets srv))"
    unfolding consistent_def by blast+
  from Some p have m: "(sid, rid, r) \<in> set (sockets srv)" by (simp add: map_of_SomeD)
  then have reg: "roomState srv rid = Some r" by (rule i5)
  define ros where "ros = AList.delete sid (roster (infos srv r))"
  have keys: "fst ` set ros = fst ` set (roster (infos srv r)) - {sid}"
    by (simp add: ros_def fst_set_delete)
  from d Some p reg have s: "srv' = srv\<lparr>sockets := AList.delete sid (sockets srv),
        infos := (infos srv)(r := (infos srv r)\<lparr>roster := ros\<rparr>),
        roomState := (if ros = [] then (roomState srv)(rid := None) else roomState srv)\<rparr>"
    by (auto simp: disconnect_def Let_def ros_def split: if_splits)
  have sock: "\<And>x. x \<in> set (sockets srv') \<longleftrightarrow> x \<in> set (sockets srv) \<and> fst x \<noteq> sid"
    using s by (simp add: set_alist_delete)
  have only: "\<And>rid' r'. (sid, rid', r') \<in> set (sockets srv) \<Longrightarrow> rid' = rid \<and> r' = r"
    using distinct_fst_unique[OF i7 m] by blast
  have sub: "\<And>rid' r'. roomState srv' rid' = Some r' \<Longrightarrow> roomState srv rid' = Some r'"
    using s by (auto split: if_splits)
  show ?thesis
    unfolding consistent_def
  proof (intro conjI allI impI)
    fix rid' r' assume a: "roomState srv' rid' = Some r'"
    note o = sub[OF a]
    show "r' < fresh srv'" using i1[OF o] s by simp
    show "roster (infos srv' r') \<noteq> []"
    proof (cases "r' = r")
      case True
      with o reg i4 have "rid' = rid" by blast
      with a s True show ?thesis by (auto split: if_splits)
    next
      case False
      with i2[OF o] s show ?thesis by simp
    qed
    show "\<forall>sid'\<in>fst ` set (roster (infos srv' r')). (sid', rid', r') \<in> set (sockets srv')"
    proof
      fix sid' assume b: "sid' \<in> fst ` set (roster (infos srv' r'))"
      show "(sid', rid', r') \<in> set (sockets srv')"
      proof (cases "r' = r")
        case True
        with b s keys have "sid' \<in> fst ` set (roster (infos srv r'))" "sid' \<noteq> sid" by auto
        with i3[OF o] sock show ?thesis by simp
      next
        case False
        with b s have "sid' \<in> fst ` set (roster (infos srv r'))" by simp
        from i3[OF o this] have c: "(sid', rid', r') \<in> set (sockets srv)" .
        with only False have "sid' \<noteq> sid" by blast
        with c sock show ?thesis by simp
      qed
    qed
  next
    fix rid1 rid2 r' assume "roomState srv' rid1 = Some r' \<and> roomState srv' rid2 = Some r'"
    then show "rid1 = rid2" using sub i4 by blast
  next
    fix s' rid' r' assume a: "(s', rid', r') \<in> set (sockets srv')"
    with sock have c: "(s', rid', r') \<in> set (sockets srv)" and n: "s' \<noteq> sid" by auto
    have k: "s' \<in> fst ` set (roster (infos srv' r'))"
      using i6[OF c] n s keys by (cases "r' = r") auto
    show "s' \<in> fst ` set (roster (infos srv' r'))" by (rule k)
    show "roomState srv' rid' = Some r'"
    proof (cases "rid' = rid")
      case True
      with i5[OF c] reg have "r' = r" by simp
      with k s have "ros \<noteq> []" by auto
      with s i5[OF c] show ?thesis by simp
    next
      case False
      with s i5[OF c] show ?thesis by simp
    qed
  next
    show "distinct (map fst (sockets srv'))" using s i7 by (simp add: distinct_alist_delete)
  qed
qed

lemma reachable_consistent:
  assumes cap: "\<not> ge_num 0 maxSpectators" and r: "reachable maxSpectators srv"
  shows "consistent srv"
  using r
proof (induction rule: reachable.induct)
  case start
  show ?case by (rule consistent_init)
next
  case (step srv ev now srv' out)
  show ?case
  proof (cases ev)
    case (MConnect sid room nm rl)
    with step.hyps(2) have new: "sid \<notin> fst ` set (sockets srv)" by (simp add: admissible_def)
    from step.hyps(3) MConnect obtain res where
      "connection srv maxSpectators sid room nm rl = (srv', out, res)"
      by (auto simp: multi_handle_def split: prod.splits)
    from consistent_connection[OF step.IH new cap this] show ?thesis .
  next
    case (MAction sid payload ack)
    with step.hyps(3) have "action srv now sid payload ack = (srv', out, None)"
      by (simp add: multi_handle_def)
    from consistent_action[OF this] step.IH show ?thesis by simp
  next
    case (MPush sid st)
    with step.hyps(3) have "snapshot_push srv sid st = (srv', out)"
      by (simp add: multi_handle_def split: prod.splits)
    from consistent_push[OF step.IH this] show ?thesis .
  next
    case (MPull sid)
    with step.hyps(3) have "snapshot_pull srv sid = (srv', out)"
      by (simp add: multi_handle_def split: prod.splits)
    from consistent_pull[OF this] step.IH show ?thesis by simp
  next
    case (MDisconnect sid)
    with step.hyps(3) have "disconnect srv sid = (srv', out)"
      by (simp add: multi_handle_def split: prod.splits)
    from consistent_disconnect[OF step.IH this] show ?thesis .
  qed
qed

text \<open>
  With a spectator limit above 0 (or none), every state the relay server reaches has the
  roster of a room empty exactly when the room is absent from the registry.
\<close>

lemma roster_empty_iff_absent:
  assumes cap: "\<not> ge_num 0 maxSpectators" and r: "reachable maxSpectators srv"
  shows "roster (info_of srv rid) = [] \<longleftrightarrow> roomState srv rid = None"
proof (cases "roomState srv rid")
  case None
  then show ?thesis by (simp add: info_of_def getPlayers_fresh)
next
  case (Some r')
  from reachable_consistent[OF cap r] Some have "roster (infos srv r') \<noteq> []"
    unfolding consistent_def by blast
  with Some show ?thesis by (simp add: info_of_def)
qed

end
